theory Spec2Isabelle
  imports Main "HOL-Library.Word"
begin

section \<open>Errors\<close>

text \<open>
  Every \<^verbatim>\<open>throw\<close> of \<^verbatim>\<open>src/index.ts\<close> and every rejection of an awaited promise is a
  value: \<open>Error msg\<close> is \<^verbatim>\<open>new Error(msg)\<close>, \<open>TypeError\<close> and \<open>RangeError\<close> are the
  engine's own exceptions (a property read on \<^verbatim>\<open>undefined\<close> or \<^verbatim>\<open>null\<close>, a typed-array
  \<^verbatim>\<open>set\<close> past the end), \<open>IOError code\<close> is a rejected \<^verbatim>\<open>node:fs/promises\<close> call and
  \<open>CodecError\<close> is whatever an external reader, writer or processor throws.
\<close>

datatype error =
    Error string
  | TypeError string
  | RangeError string
  | IOError string
  | CodecError string

section \<open>Column and table model\<close>

text \<open>
  Modelled from the spec: the classes \<^verbatim>\<open>Column\<close> and \<^verbatim>\<open>DataTable\<close> of
  \<^verbatim>\<open>./data-table\<close>, which \<^verbatim>\<open>src/index.ts\<close> imports and which are not among the
  sources. The spec (section 3) gives a column a name, an element type and a contiguous
  buffer of that element type, and a table an ordered sequence of columns with the
  derived \<open>numRows\<close>. The spec names the element types float32, int32 and uint8 and
  leaves the list open; the other JavaScript typed-array kinds complete it here, and no
  proof below depends on which kinds exist. The elements of a buffer are values of a
  type \<open>'v\<close> with a zero, the content of a freshly allocated typed array.
\<close>

datatype elementType =
  Float32 | Int32 | Uint8 | Int8 | Int16 | Uint16 | Uint32 | Float64

record 'v Column =
  name :: string
  dataType :: elementType
  data :: "'v list"

record 'v DataTable =
  columns :: "'v Column list"

text \<open>
  Modelled from the spec: \<open>numRows\<close> is derived from the columns, all of which have
  that length by the invariant of section 3. It is read off the first column; the spec
  does not say what a table without columns reports, and the model gives 0 there.
\<close>

definition numRows :: "'v DataTable \<Rightarrow> nat" where
  "numRows t = (case columns t of [] \<Rightarrow> 0 | c # _ \<Rightarrow> length (data c))"

text \<open>Modelled from the spec: \<open>hasColumn\<close>, "present as a column" by name (section 4.2).\<close>

definition hasColumn :: "'v DataTable \<Rightarrow> string \<Rightarrow> bool" where
  "hasColumn t c = list_ex (\<lambda>col. name col = c) (columns t)"

text \<open>The invariant of section 3: all columns of one table have the length \<open>numRows\<close>.\<close>

definition table_inv :: "'v DataTable \<Rightarrow> bool" where
  "table_inv t = list_all (\<lambda>c. length (data c) = numRows t) (columns t)"

text \<open>Column identity for merging: the pair of name and element type.\<close>

definition sameId :: "'v Column \<Rightarrow> 'v Column \<Rightarrow> bool" where
  "sameId c d = (name c = name d \<and> dataType c = dataType d)"

definition colId :: "'v Column \<Rightarrow> string \<times> elementType" where
  "colId c = (name c, dataType c)"

section \<open>combine\<close>

text \<open>
  \<^verbatim>\<open>TypedArray.prototype.set(source, offset)\<close> between arrays of one element type:
  it overwrites \<open>length source\<close> elements from \<open>offset\<close> on and throws a RangeError
  when the source does not fit.
\<close>

definition typedArraySet :: "'v list \<Rightarrow> 'v list \<Rightarrow> nat \<Rightarrow> error + 'v list" where
  "typedArraySet target source offset =
     (if length target < offset + length source
      then Inl (RangeError ''offset is out of bounds'')
      else Inr (take offset target @ source @ drop (offset + length source) target))"

text \<open>
  \<^verbatim>\<open>findMatchingColumn\<close> scans from index 0 and returns the first column with the
  name and element type of \<open>column\<close>. The source returns the column object, which the
  caller then mutates; the model returns its index, \<open>None\<close> for \<^verbatim>\<open>null\<close>.
\<close>

fun findMatchingColumn :: "'v Column list \<Rightarrow> 'v Column \<Rightarrow> nat option" where
  "findMatchingColumn [] column = None"
| "findMatchingColumn (c # cs) column =
     (if name c = name column \<and> dataType c = dataType column then Some 0
      else map_option Suc (findMatchingColumn cs column))"

text \<open>The inner loop over \<open>j\<close> of the unique-list phase: push the columns that find no match.\<close>

fun pushNewColumns :: "'v Column list \<Rightarrow> 'v Column list \<Rightarrow> 'v Column list" where
  "pushNewColumns cols [] = cols"
| "pushNewColumns cols (c # cs) =
     pushNewColumns (if findMatchingColumn cols c = None then cols @ [c] else cols) cs"

text \<open>The outer loop over the tables from index 1 on.\<close>

fun uniqueColumns :: "'v Column list \<Rightarrow> 'v DataTable list \<Rightarrow> 'v Column list" where
  "uniqueColumns cols [] = cols"
| "uniqueColumns cols (t # ts) = uniqueColumns (pushNewColumns cols (columns t)) ts"

text \<open>\<^verbatim>\<open>dataTables.reduce((sum, dataTable) => sum + dataTable.numRows, 0)\<close>\<close>

definition totalRows :: "'v DataTable list \<Rightarrow> nat" where
  "totalRows dataTables = foldl (\<lambda>sum dataTable. sum + numRows dataTable) 0 dataTables"

text \<open>A fresh column of the same name and typed-array constructor, \<open>n\<close> zeros long.\<close>

definition newColumn :: "nat \<Rightarrow> 'v Column \<Rightarrow> ('v::zero) Column" where
  "newColumn n column = \<lparr>name = name column, dataType = dataType column, data = replicate n 0\<rparr>"

text \<open>
  The copy phase. The inner loop over the columns of one table: look the target up in the
  result columns and \<^verbatim>\<open>set\<close> the source data at \<open>rowOffset\<close>. A \<^verbatim>\<open>null\<close> target makes
  \<^verbatim>\<open>targetColumn.data\<close> throw a TypeError.
\<close>

fun copyColumns :: "'v Column list \<Rightarrow> 'v Column list \<Rightarrow> nat \<Rightarrow> error + 'v Column list" where
  "copyColumns result [] rowOffset = Inr result"
| "copyColumns result (column # cs) rowOffset =
     (case findMatchingColumn result column of
        None \<Rightarrow> Inl (TypeError ''Cannot read properties of null (reading data)'')
      | Some i \<Rightarrow>
          (case typedArraySet (data (result ! i)) (data column) rowOffset of
             Inl e \<Rightarrow> Inl e
           | Inr d \<Rightarrow> copyColumns (result[i := (result ! i)\<lparr>data := d\<rparr>]) cs rowOffset))"

text \<open>The outer loop over the tables, with the running \<open>rowOffset\<close>.\<close>

fun copyTables :: "'v Column list \<Rightarrow> 'v DataTable list \<Rightarrow> nat \<Rightarrow> error + 'v Column list" where
  "copyTables result [] rowOffset = Inr result"
| "copyTables result (dataTable # ts) rowOffset =
     (case copyColumns result (columns dataTable) rowOffset of
        Inl e \<Rightarrow> Inl e
      | Inr result' \<Rightarrow> copyTables result' ts (rowOffset + numRows dataTable))"

text \<open>
  \<^verbatim>\<open>combine\<close>. A sequence of length 1 returns its table. On the empty sequence
  \<^verbatim>\<open>dataTables[0]\<close> is \<^verbatim>\<open>undefined\<close> and reading \<^verbatim>\<open>.columns\<close> throws.
\<close>

definition combine :: "('v::zero) DataTable list \<Rightarrow> error + 'v DataTable" where
  "combine dataTables =
     (case dataTables of
        [] \<Rightarrow> Inl (TypeError ''Cannot read properties of undefined (reading columns)'')
      | [t] \<Rightarrow> Inr t
      | t # ts \<Rightarrow>
          (let cols = uniqueColumns (columns t) ts;
               resultColumns = map (newColumn (totalRows dataTables)) cols
           in case copyTables resultColumns dataTables 0 of
                Inl e \<Rightarrow> Inl e
              | Inr result \<Rightarrow> Inr \<lparr>columns = result\<rparr>))"

text \<open>The row offset of the \<open>i\<close>-th table: the rows of the tables before it.\<close>

definition rowOffsetOf :: "'v DataTable list \<Rightarrow> nat \<Rightarrow> nat" where
  "rowOffsetOf dataTables i = sum_list (map numRows (take i dataTables))"

text \<open>No two columns of one table share a name and element type.\<close>

definition distinctIds :: "'v DataTable \<Rightarrow> bool" where
  "distinctIds t = distinct (map colId (columns t))"

section \<open>isGSDataTable\<close>

definition gsColumns :: "string list" where
  "gsColumns =
     [''x'', ''y'', ''z'',
      ''rot_0'', ''rot_1'', ''rot_2'', ''rot_3'',
      ''scale_0'', ''scale_1'', ''scale_2'',
      ''f_dc_0'', ''f_dc_1'', ''f_dc_2'',
      ''opacity'']"

definition isGSDataTable :: "'v DataTable \<Rightarrow> bool" where
  "isGSDataTable dataTable =
     (if \<not> list_all (\<lambda>c. hasColumn dataTable c) gsColumns then False else True)"

section \<open>Strings and getOutputFormat\<close>

text \<open>
  \<^verbatim>\<open>String.prototype.toLowerCase\<close> on the ASCII range: the letters A to Z map to a to z
  and every other character stays. \<^verbatim>\<open>endsWith\<close> compares the last characters.
\<close>

definition lowerChar :: "char \<Rightarrow> char" where
  "lowerChar c =
     (case map_of (zip ''ABCDEFGHIJKLMNOPQRSTUVWXYZ'' ''abcdefghijklmnopqrstuvwxyz'') c of
        None \<Rightarrow> c
      | Some l \<Rightarrow> l)"

definition toLowerCase :: "string \<Rightarrow> string" where
  "toLowerCase s = map lowerChar s"

definition endsWith :: "string \<Rightarrow> string \<Rightarrow> bool" where
  "endsWith s suffix =
     (length suffix \<le> length s \<and> drop (length s - length suffix) s = suffix)"

datatype outputFormat = Csv | Lod | Sog | CompressedPly | Ply | Html

definition getOutputFormat :: "string \<Rightarrow> error + outputFormat" where
  "getOutputFormat filename =
     (let lowerFilename = toLowerCase filename in
      if endsWith lowerFilename ''.csv'' then Inr Csv
      else if endsWith lowerFilename ''lod-meta.json'' then Inr Lod
      else if endsWith lowerFilename ''.sog'' \<or> endsWith lowerFilename ''meta.json'' then Inr Sog
      else if endsWith lowerFilename ''.compressed.ply'' then Inr CompressedPly
      else if endsWith lowerFilename ''.ply'' then Inr Ply
      else if endsWith lowerFilename ''.html'' then Inr Html
      else Inl (Error (''Unsupported output file type: '' @ filename)))"

section \<open>Example tables\<close>

definition gsExample :: "int DataTable" where
  "gsExample =
     \<lparr>columns = map (\<lambda>n. \<lparr>name = n, dataType = Float32, data = [0]\<rparr>)
        [''x'', ''y'', ''z'', ''rot_0'', ''rot_1'', ''rot_2'', ''rot_3'',
         ''scale_0'', ''scale_1'', ''scale_2'', ''f_dc_0'', ''f_dc_1'', ''f_dc_2'',
         ''opacity'']\<rparr>"

definition gsExampleExtra :: "int DataTable" where
  "gsExampleExtra =
     \<lparr>columns = map (\<lambda>n. \<lparr>name = n, dataType = Float32, data = [0]\<rparr>)
        [''opacity'', ''extra'', ''z'', ''y'', ''x'', ''rot_0'', ''rot_1'', ''rot_2'',
         ''rot_3'', ''scale_0'', ''scale_1'', ''scale_2'', ''f_dc_0'', ''f_dc_1'',
         ''f_dc_2'']\<rparr>"

definition xyzExample :: "int DataTable" where
  "xyzExample =
     \<lparr>columns = map (\<lambda>n. \<lparr>name = n, dataType = Float32, data = [0]\<rparr>)
        [''x'', ''y'', ''z'']\<rparr>"

text \<open>
  Two tables with one common column, the second with a column the first lacks; and two
  tables of which the first carries the same name and element type twice.
\<close>

definition mixedTables :: "int DataTable list" where
  "mixedTables =
     [\<lparr>columns = [\<lparr>name = ''x'', dataType = Float32, data = [1, 2]\<rparr>]\<rparr>,
      \<lparr>columns = [\<lparr>name = ''x'', dataType = Float32, data = [3, 4, 5]\<rparr>,
                  \<lparr>name = ''opacity'', dataType = Float32, data = [7, 8, 9]\<rparr>]\<rparr>]"

definition dupTables :: "int DataTable list" where
  "dupTables =
     [\<lparr>columns = [\<lparr>name = ''x'', dataType = Float32, data = [1]\<rparr>,
                  \<lparr>name = ''x'', dataType = Float32, data = [2]\<rparr>]\<rparr>,
      \<lparr>columns = [\<lparr>name = ''x'', dataType = Float32, data = [3]\<rparr>]\<rparr>]"

section \<open>Files, handles and the platform\<close>

text \<open>
  The calls of \<^verbatim>\<open>node:fs/promises\<close>, \<^verbatim>\<open>node:path\<close>, \<^verbatim>\<open>crypto\<close> and \<^verbatim>\<open>process\<close> that
  \<^verbatim>\<open>src/index.ts\<close> makes act on an explicit state: the files by path, the open file
  handles by descriptor, and the next free descriptor. What the platform decides is an
  input: the working directory, the process id, the clock, the random bytes in hex, and
  for each call that can be rejected the error it is rejected with, if any. Paths are
  compared as strings (no symbolic links, one spelling per file), with the separator /.
  Console output is not part of the state.
\<close>

type_synonym path = string
type_synonym bytes = "8 word list"

record world =
  files :: "path \<Rightarrow> bytes option"
  handles :: "nat \<Rightarrow> path option"
  nextFd :: nat

record env =
  cwd :: path
  pid :: nat
  now :: nat
  randomHex :: string
  openFault :: "path \<Rightarrow> error option"
  syncFault :: "path \<Rightarrow> error option"
  closeFault :: "path \<Rightarrow> error option"
  renameFault :: "path \<Rightarrow> path \<Rightarrow> error option"

text \<open>
  \<^verbatim>\<open>open(path, 'r')\<close> needs an existing file; \<^verbatim>\<open>open(path, 'wx')\<close> creates the file
  empty and fails when the path exists already.
\<close>

datatype openFlags = FlagR | FlagWX

definition fsOpen :: "env \<Rightarrow> path \<Rightarrow> openFlags \<Rightarrow> world \<Rightarrow> (error + nat) \<times> world" where
  "fsOpen env p flags w =
     (case openFault env p of
        Some e \<Rightarrow> (Inl e, w)
      | None \<Rightarrow>
          (case flags of
             FlagR \<Rightarrow>
               (if files w p = None then (Inl (IOError ''ENOENT''), w)
                else (Inr (nextFd w),
                      w\<lparr>handles := (handles w)(nextFd w \<mapsto> p), nextFd := Suc (nextFd w)\<rparr>))
           | FlagWX \<Rightarrow>
               (if files w p \<noteq> None then (Inl (IOError ''EEXIST''), w)
                else (Inr (nextFd w),
                      w\<lparr>files := (files w)(p \<mapsto> []),
                        handles := (handles w)(nextFd w \<mapsto> p),
                        nextFd := Suc (nextFd w)\<rparr>))))"

text \<open>
  Writing through a handle appends to the file the handle was opened on; reading through
  it yields the content of that file.
\<close>

definition fsWrite :: "nat \<Rightarrow> bytes \<Rightarrow> world \<Rightarrow> world" where
  "fsWrite fd bs w =
     (case handles w fd of
        None \<Rightarrow> w
      | Some p \<Rightarrow> w\<lparr>files := (files w)(p \<mapsto> (case files w p of None \<Rightarrow> bs | Some old \<Rightarrow> old @ bs))\<rparr>)"

definition fsRead :: "nat \<Rightarrow> world \<Rightarrow> bytes" where
  "fsRead fd w =
     (case handles w fd of
        None \<Rightarrow> []
      | Some p \<Rightarrow> (case files w p of None \<Rightarrow> [] | Some bs \<Rightarrow> bs))"

text \<open>\<^verbatim>\<open>sync\<close> changes nothing that the model observes; it succeeds or is rejected.\<close>

definition fsSync :: "env \<Rightarrow> nat \<Rightarrow> world \<Rightarrow> error + unit" where
  "fsSync env fd w =
     (case handles w fd of
        None \<Rightarrow> Inl (IOError ''EBADF'')
      | Some p \<Rightarrow> (case syncFault env p of Some e \<Rightarrow> Inl e | None \<Rightarrow> Inr ()))"

text \<open>\<^verbatim>\<open>close\<close> releases the descriptor, also when it reports an error.\<close>

definition fsClose :: "env \<Rightarrow> nat \<Rightarrow> world \<Rightarrow> (error + unit) \<times> world" where
  "fsClose env fd w =
     (case handles w fd of
        None \<Rightarrow> (Inl (IOError ''EBADF''), w)
      | Some p \<Rightarrow>
          ((case closeFault env p of Some e \<Rightarrow> Inl e | None \<Rightarrow> Inr ()),
           w\<lparr>handles := (handles w)(fd := None)\<rparr>))"

text \<open>
  \<^verbatim>\<open>rename(old, new)\<close> moves the content in one step and replaces whatever was at
  \<open>new\<close>; when it is rejected nothing changes.
\<close>

definition fsRename :: "env \<Rightarrow> path \<Rightarrow> path \<Rightarrow> world \<Rightarrow> (error + unit) \<times> world" where
  "fsRename env old new w =
     (case renameFault env old new of
        Some e \<Rightarrow> (Inl e, w)
      | None \<Rightarrow>
          (case files w old of
             None \<Rightarrow> (Inl (IOError ''ENOENT''), w)
           | Some bs \<Rightarrow> (Inr (), w\<lparr>files := ((files w)(old := None))(new \<mapsto> bs)\<rparr>)))"

text \<open>
  \<^verbatim>\<open>basename\<close>, \<^verbatim>\<open>dirname\<close>, \<^verbatim>\<open>join\<close> and \<^verbatim>\<open>resolve\<close> for paths without a trailing
  separator and without \<^verbatim>\<open>.\<close> or \<^verbatim>\<open>..\<close> segments: the part after the last separator,
  the part before it (\<^verbatim>\<open>.\<close> without a separator, \<^verbatim>\<open>/\<close> at the root), the two parts
  put together, and the path made absolute from the working directory.
\<close>

definition basename :: "path \<Rightarrow> string" where
  "basename p = rev (takeWhile (\<lambda>c. c \<noteq> CHR ''/'') (rev p))"

definition dirname :: "path \<Rightarrow> path" where
  "dirname p =
     (if CHR ''/'' \<notin> set p then ''.''
      else (let d = rev (drop 1 (dropWhile (\<lambda>c. c \<noteq> CHR ''/'') (rev p)))
            in if d = [] then ''/'' else d))"

definition join :: "path \<Rightarrow> string \<Rightarrow> path" where
  "join dir f = (if dir = ''.'' then f else if dir = ''/'' then ''/'' @ f else dir @ ''/'' @ f)"

definition resolve :: "env \<Rightarrow> path \<Rightarrow> path" where
  "resolve env p = (if take 1 p = ''/'' then p else join (cwd env) p)"

text \<open>A number in a template literal: its decimal digits.\<close>

function decimal :: "nat \<Rightarrow> string" where
  "decimal n =
     (if n < 10 then [''0123456789'' ! n]
      else decimal (n div 10) @ [''0123456789'' ! (n mod 10)])"
  by pat_completeness auto
termination
  by (relation "measure id") auto

declare decimal.simps [simp del]

section \<open>External collaborators\<close>

text \<open>
  Modelled from the spec: the readers, writers and \<^verbatim>\<open>processDataTable\<close> that
  \<^verbatim>\<open>src/index.ts\<close> imports from \<^verbatim>\<open>./readers\<close>, \<^verbatim>\<open>./writers\<close> and \<^verbatim>\<open>./process\<close>,
  which are not among the sources. They are parameters of the pipeline with the
  contracts of section 6 of the spec. A reader turns the content of the open file (or,
  for \<^verbatim>\<open>.mjs\<close>, the filename and parameters) into a file record or throws. A writer
  writes into the open temporary handle only and does not close it: it yields the bytes
  it wrote and the error it threw, if any. \<^verbatim>\<open>processDataTable\<close> is a transform from
  table to table that may throw. A file record is a list of comments and a sequence of
  named elements, each with a table. The \<^verbatim>\<open>help\<close> option is the field \<open>helpFlag\<close>.
\<close>

datatype device = Cpu | Gpu

record 'v PlyElement =
  ename :: string
  dataTable :: "'v DataTable"

record 'v PlyFile =
  comments :: "string list"
  elements :: "'v PlyElement list"

type_synonym Param = "string \<times> string"

datatype ProcessAction = ProcessAction string

record 'v readers =
  readMjs :: "path \<Rightarrow> Param list \<Rightarrow> error + 'v PlyFile"
  readKsplat :: "bytes \<Rightarrow> error + 'v PlyFile"
  readSplat :: "bytes \<Rightarrow> error + 'v PlyFile"
  readSog :: "bytes \<Rightarrow> path \<Rightarrow> error + 'v PlyFile"
  readPly :: "bytes \<Rightarrow> error + 'v PlyFile"
  isCompressedPly :: "'v PlyFile \<Rightarrow> bool"
  decompressPly :: "'v PlyFile \<Rightarrow> error + 'v DataTable"
  readSpz :: "bytes \<Rightarrow> error + 'v PlyFile"

record 'v writers =
  writeSog :: "'v DataTable \<Rightarrow> path \<Rightarrow> int \<Rightarrow> device \<Rightarrow> bytes \<times> error option"
  writeLod :: "'v DataTable \<Rightarrow> path \<Rightarrow> int \<Rightarrow> device \<Rightarrow> bytes \<times> error option"
  writeCompressedPly :: "'v DataTable \<Rightarrow> bytes \<times> error option"
  writePly :: "'v PlyFile \<Rightarrow> bytes \<times> error option"

record Options =
  overwrite :: bool
  helpFlag :: bool
  version :: bool
  cpu :: bool
  iterations :: int
  viewerSettingsPath :: "string option"

section \<open>readFile\<close>

text \<open>
  The chain of suffix tests of \<^verbatim>\<open>readFile\<close> after the file is open: \<open>Some\<close> of what
  the selected reader returns or throws, \<open>None\<close> when no suffix matches.
\<close>

definition dispatchReader ::
  "'v readers \<Rightarrow> string \<Rightarrow> path \<Rightarrow> bytes \<Rightarrow> (error + 'v PlyFile) option" where
  "dispatchReader rd lowerFilename filename content =
     (if endsWith lowerFilename ''.ksplat'' then Some (readKsplat rd content)
      else if endsWith lowerFilename ''.splat'' then Some (readSplat rd content)
      else if endsWith lowerFilename ''.sog'' \<or> endsWith lowerFilename ''meta.json''
        then Some (readSog rd content filename)
      else if endsWith lowerFilename ''.ply'' then
        Some (case readPly rd content of
                Inl e \<Rightarrow> Inl e
              | Inr ply \<Rightarrow>
                  (if isCompressedPly rd ply then
                     (case decompressPly rd ply of
                        Inl e \<Rightarrow> Inl e
                      | Inr t \<Rightarrow>
                          Inr \<lparr>comments = comments ply,
                               elements = [\<lparr>ename = ''vertex'', dataTable = t\<rparr>]\<rparr>)
                   else Inr ply))
      else if endsWith lowerFilename ''.spz'' then Some (readSpz rd content)
      else None)"

text \<open>
  \<^verbatim>\<open>readFile\<close>. A \<^verbatim>\<open>.mjs\<close> input opens no file. Otherwise the file is opened; the
  function closes it before it throws the unsupported-type error and after a reader has
  returned. An exception of the reader leaves the function at once: the source has no
  \<^verbatim>\<open>try\<close> around the readers.
\<close>

definition readFile ::
  "env \<Rightarrow> 'v readers \<Rightarrow> path \<Rightarrow> Param list \<Rightarrow> world \<Rightarrow> (error + 'v PlyFile) \<times> world" where
  "readFile env rd filename params w =
     (let lowerFilename = toLowerCase filename in
      if endsWith lowerFilename ''.mjs'' then (readMjs rd filename params, w)
      else
        (case fsOpen env filename FlagR w of
           (Inl e, w1) \<Rightarrow> (Inl e, w1)
         | (Inr inputFile, w1) \<Rightarrow>
             (case dispatchReader rd lowerFilename filename (fsRead inputFile w1) of
                None \<Rightarrow>
                  (case fsClose env inputFile w1 of
                     (Inl e, w2) \<Rightarrow> (Inl e, w2)
                   | (Inr _, w2) \<Rightarrow>
                       (Inl (Error (''Unsupported input file type: '' @ filename)), w2))
              | Some (Inl e) \<Rightarrow> (Inl e, w1)
              | Some (Inr fileData) \<Rightarrow>
                  (case fsClose env inputFile w1 of
                     (Inl e, w2) \<Rightarrow> (Inl e, w2)
                   | (Inr _, w2) \<Rightarrow> (Inr fileData, w2)))))"

section \<open>writeFile\<close>

text \<open>
  The temporary path: \<^verbatim>\<open>.<basename>.<pid>.<now>.<random hex>.tmp\<close> in the directory of
  the target.
\<close>

definition tmpPathnameOf :: "env \<Rightarrow> path \<Rightarrow> path" where
  "tmpPathnameOf env filename =
     (let tmpFilename =
            ''.'' @ basename filename @ ''.'' @ decimal (pid env) @ ''.'' @ decimal (now env)
            @ ''.'' @ randomHex env @ ''.tmp''
      in join (dirname filename) tmpFilename)"

text \<open>
  The \<^verbatim>\<open>switch\<close> over the output format. It has cases for sog, lod, compressed-ply
  and ply; csv and html fall through and write nothing.
\<close>

definition dispatchWriter ::
  "'v writers \<Rightarrow> outputFormat \<Rightarrow> path \<Rightarrow> 'v DataTable \<Rightarrow> Options \<Rightarrow> bytes \<times> error option" where
  "dispatchWriter wr outputFormat filename table options =
     (case outputFormat of
        Sog \<Rightarrow> writeSog wr table filename (iterations options)
                 (if cpu options then Cpu else Gpu)
      | Lod \<Rightarrow> writeLod wr table filename (iterations options)
                 (if cpu options then Cpu else Gpu)
      | CompressedPly \<Rightarrow> writeCompressedPly wr table
      | Ply \<Rightarrow> writePly wr \<lparr>comments = [],
                             elements = [\<lparr>ename = ''vertex'', dataTable = table\<rparr>]\<rparr>
      | Csv \<Rightarrow> ([], None)
      | Html \<Rightarrow> ([], None))"

text \<open>
  \<^verbatim>\<open>writeFile\<close>: resolve the format (throws), open the temporary file exclusively,
  \<^verbatim>\<open>try\<close> the writer and the \<^verbatim>\<open>sync\<close>, \<^verbatim>\<open>finally\<close> close the handle and ignore what the
  close reports, and only when the \<^verbatim>\<open>try\<close> block did not throw rename the temporary
  file onto the target. The \<open>overwrite\<close> option is not read.
\<close>

definition writeFile ::
  "env \<Rightarrow> 'v writers \<Rightarrow> path \<Rightarrow> 'v DataTable \<Rightarrow> Options \<Rightarrow> world \<Rightarrow> (error + unit) \<times> world" where
  "writeFile env wr filename table options w =
     (case getOutputFormat filename of
        Inl e \<Rightarrow> (Inl e, w)
      | Inr outputFormat \<Rightarrow>
          (let tmpPathname = tmpPathnameOf env filename in
           case fsOpen env tmpPathname FlagWX w of
             (Inl e, w1) \<Rightarrow> (Inl e, w1)
           | (Inr outputFile, w1) \<Rightarrow>
               (let (written, thrown) = dispatchWriter wr outputFormat filename table options;
                    w2 = fsWrite outputFile written w1;
                    tried = (case thrown of Some e \<Rightarrow> Inl e | None \<Rightarrow> fsSync env outputFile w2);
                    w3 = snd (fsClose env outputFile w2)
                in case tried of
                     Inl e \<Rightarrow> (Inl e, w3)
                   | Inr _ \<Rightarrow> fsRename env tmpPathname filename w3)))"

section \<open>convertGsplat\<close>

text \<open>
  The object returned by \<^verbatim>\<open>convertGsplat\<close>: \<^verbatim>\<open>{isOk: true}\<close> or
  \<^verbatim>\<open>{isOk: false, error: err}\<close>.
\<close>

datatype convertResult = IsOk | NotOk error

definition unsupportedData :: "string \<Rightarrow> error" where
  "unsupportedData filename =
     Error (''Unsupported data in file '' @ [CHR 0x27] @ filename @ [CHR 0x27])"

definition convertOptions :: Options where
  "convertOptions =
     \<lparr>overwrite = True, helpFlag = False, version = False, cpu = True, iterations = 10,
      viewerSettingsPath = None\<rparr>"

text \<open>
  The \<^verbatim>\<open>try\<close> block of \<^verbatim>\<open>convertGsplat\<close>: read, require one element named vertex with
  rows and the splat columns, process, combine the one table, process again, require
  rows, write.
\<close>

definition convertBody ::
  "env \<Rightarrow> 'v readers \<Rightarrow> ('v DataTable \<Rightarrow> ProcessAction list \<Rightarrow> error + 'v DataTable) \<Rightarrow>
   ('v::zero) writers \<Rightarrow> path \<Rightarrow> path \<Rightarrow> world \<Rightarrow> (error + unit) \<times> world" where
  "convertBody env rd processDataTable wr filename outputFilename w =
     (case readFile env rd (resolve env filename) [] w of
        (Inl e, w1) \<Rightarrow> (Inl e, w1)
      | (Inr fileData, w1) \<Rightarrow>
          (if length (elements fileData) \<noteq> 1 \<or> ename (elements fileData ! 0) \<noteq> ''vertex''
           then (Inl (unsupportedData filename), w1)
           else
             (let element = elements fileData ! 0 in
              if numRows (dataTable element) = 0 \<or> \<not> isGSDataTable (dataTable element)
              then (Inl (unsupportedData filename), w1)
              else
                (case processDataTable (dataTable element) [] of
                   Inl e \<Rightarrow> (Inl e, w1)
                 | Inr processed \<Rightarrow>
                     (case combine [processed] of
                        Inl e \<Rightarrow> (Inl e, w1)
                      | Inr combined \<Rightarrow>
                          (case processDataTable combined [] of
                             Inl e \<Rightarrow> (Inl e, w1)
                           | Inr result \<Rightarrow>
                               (if numRows result = 0
                                then (Inl (Error ''No splats to write''), w1)
                                else writeFile env wr (resolve env outputFilename) result
                                       convertOptions w1)))))))"

text \<open>
  \<^verbatim>\<open>convertGsplat\<close>: the \<^verbatim>\<open>catch\<close> clause turns every exception of the block into
  the failure object. The left summand of the result type stands for an exception that
  leaves \<^verbatim>\<open>convertGsplat\<close>.
\<close>

definition convertGsplat ::
  "env \<Rightarrow> 'v readers \<Rightarrow> ('v DataTable \<Rightarrow> ProcessAction list \<Rightarrow> error + 'v DataTable) \<Rightarrow>
   ('v::zero) writers \<Rightarrow> path \<Rightarrow> path \<Rightarrow> world \<Rightarrow> (error + convertResult) \<times> world" where
  "convertGsplat env rd processDataTable wr filename outputFilename w =
     (case convertBody env rd processDataTable wr filename outputFilename w of
        (Inl err, w') \<Rightarrow> (Inr (NotOk err), w')
      | (Inr _, w') \<Rightarrow> (Inr IsOk, w'))"

section \<open>Example platform, codecs and files\<close>

text \<open>
  A platform without faults and one whose \<open>sync\<close> fails; a file system holding an input
  ply and an older output; writers and readers that succeed and ones that throw.
\<close>

definition exEnv :: env where
  "exEnv =
     \<lparr>cwd = ''/work'', pid = 7, now = 42, randomHex = ''00ff00ff00ff'',
      openFault = (\<lambda>_. None), syncFault = (\<lambda>_. None), closeFault = (\<lambda>_. None),
      renameFault = (\<lambda>_ _. None)\<rparr>"

definition syncFailEnv :: env where
  "syncFailEnv = exEnv\<lparr>syncFault := (\<lambda>_. Some (IOError ''EIO''))\<rparr>"

definition exWorld :: world where
  "exWorld =
     \<lparr>files = [''/work/in.ply'' \<mapsto> [1, 2, 3], ''/work/out.ply'' \<mapsto> [9, 9]],
      handles = (\<lambda>_. None), nextFd = 3\<rparr>"

definition exWriters :: "int writers" where
  "exWriters =
     \<lparr>writeSog = (\<lambda>_ _ _ _. ([1], None)), writeLod = (\<lambda>_ _ _ _. ([2], None)),
      writeCompressedPly = (\<lambda>_. ([3], None)), writePly = (\<lambda>_. ([112, 108, 121], None))\<rparr>"

definition failingWriters :: "int writers" where
  "failingWriters =
     exWriters\<lparr>writePly := (\<lambda>_. ([112], Some (CodecError ''write failed'')))\<rparr>"

definition exReaders :: "int readers" where
  "exReaders =
     \<lparr>readMjs = (\<lambda>_ _. Inl (CodecError ''no generator'')),
      readKsplat = (\<lambda>_. Inl (CodecError ''not a ksplat'')),
      readSplat = (\<lambda>_. Inl (CodecError ''not a splat'')),
      readSog = (\<lambda>_ _. Inl (CodecError ''not a sog'')),
      readPly = (\<lambda>_. Inr \<lparr>comments = [],
                           elements = [\<lparr>ename = ''vertex'', dataTable = gsExample\<rparr>]\<rparr>),
      isCompressedPly = (\<lambda>_. False),
      decompressPly = (\<lambda>_. Inl (CodecError ''not compressed'')),
      readSpz = (\<lambda>_. Inl (CodecError ''not a spz''))\<rparr>"

definition failingReaders :: "int readers" where
  "failingReaders = exReaders\<lparr>readPly := (\<lambda>_. Inl (CodecError ''malformed header''))\<rparr>"

definition exProcess :: "int DataTable \<Rightarrow> ProcessAction list \<Rightarrow> error + int DataTable" where
  "exProcess t actions = Inr t"

section \<open>Properties of the strings\<close>

lemma endsWith_last: "endsWith s suf \<Longrightarrow> suf \<noteq> [] \<Longrightarrow> last s = last suf"
proof -
  assume a: "endsWith s suf" and n: "suf \<noteq> []"
  from a have "drop (length s - length suf) s = suf" by (simp add: endsWith_def)
  then have "s = take (length s - length suf) s @ suf" by (metis append_take_drop_id)
  then have "last s = last (take (length s - length suf) s @ suf)" by simp
  with n show ?thesis by simp
qed

lemma endsWith_append: "endsWith (p @ suf) suf"
  by (simp add: endsWith_def)

lemma toLowerCase_append: "toLowerCase (p @ s) = toLowerCase p @ toLowerCase s"
  by (simp add: toLowerCase_def)

lemma compressed_ply_excludes:
  "endsWith s ''.compressed.ply'' \<Longrightarrow>
   \<not> endsWith s ''.csv'' \<and> \<not> endsWith s ''lod-meta.json'' \<and> \<not> endsWith s ''.sog''
   \<and> \<not> endsWith s ''meta.json''"
  by (auto dest!: endsWith_last)

lemma lod_meta_excludes: "endsWith s ''lod-meta.json'' \<Longrightarrow> \<not> endsWith s ''.csv''"
  by (auto dest!: endsWith_last)

lemma toLowerCase_compressed_ply: "toLowerCase ''.compressed.ply'' = ''.compressed.ply''"
  by (simp add: toLowerCase_def lowerChar_def)

lemma toLowerCase_lod_meta: "toLowerCase ''lod-meta.json'' = ''lod-meta.json''"
  by (simp add: toLowerCase_def lowerChar_def)

section \<open>Output-format resolution\<close>

text \<open>
  C6. \<open>getOutputFormat\<close> is a first-match test of the lower-cased filename against the
  suffixes .csv, lod-meta.json, (.sog or meta.json), .compressed.ply, .ply, .html, in
  this order: each kind is returned exactly when its suffix matches and no earlier one
  does. A filename ending in .compressed.ply (in any letter case) resolves to
  compressed-ply and not to ply, one ending in lod-meta.json to lod and not to sog, and
  a filename matching no suffix fails with the unsupported-output-type error.
\<close>

theorem getOutputFormat_first_match:
  "(endsWith (toLowerCase filename) ''.compressed.ply'' \<longrightarrow>
      getOutputFormat filename = Inr CompressedPly \<and> getOutputFormat filename \<noteq> Inr Ply)
 \<and> (endsWith (toLowerCase filename) ''lod-meta.json'' \<longrightarrow>
      getOutputFormat filename = Inr Lod \<and> getOutputFormat filename \<noteq> Inr Sog)
 \<and> getOutputFormat (p @ ''.compressed.ply'') = Inr CompressedPly
 \<and> getOutputFormat (p @ ''lod-meta.json'') = Inr Lod
 \<and> (getOutputFormat filename = Inr Csv \<longleftrightarrow> endsWith (toLowerCase filename) ''.csv'')
 \<and> (getOutputFormat filename = Inr Lod \<longleftrightarrow>
      \<not> endsWith (toLowerCase filename) ''.csv''
      \<and> endsWith (toLowerCase filename) ''lod-meta.json'')
 \<and> (getOutputFormat filename = Inr Sog \<longleftrightarrow>
      \<not> endsWith (toLowerCase filename) ''.csv''
      \<and> \<not> endsWith (toLowerCase filename) ''lod-meta.json''
      \<and> (endsWith (toLowerCase filename) ''.sog''
         \<or> endsWith (toLowerCase filename) ''meta.json''))
 \<and> (getOutputFormat filename = Inr CompressedPly \<longleftrightarrow>
      \<not> endsWith (toLowerCase filename) ''.csv''
      \<and> \<not> endsWith (toLowerCase filename) ''lod-meta.json''
      \<and> \<not> endsWith (toLowerCase filename) ''.sog''
      \<and> \<not> endsWith (toLowerCase filename) ''meta.json''
      \<and> endsWith (toLowerCase filename) ''.compressed.ply'')
 \<and> (getOutputFormat filename = Inr Ply \<longleftrightarrow>
      \<not> endsWith (toLowerCase filename) ''.csv''
      \<and> \<not> endsWith (toLowerCase filename) ''lod-meta.json''
      \<and> \<not> endsWith (toLowerCase filename) ''.sog''
      \<and> \<not> endsWith (toLowerCase filename) ''meta.json''
      \<and> \<not> endsWith (toLowerCase filename) ''.compressed.ply''
      \<and> endsWith (toLowerCase filename) ''.ply'')
 \<and> (getOutputFormat filename = Inr Html \<longleftrightarrow>
      \<not> endsWith (toLowerCase filename) ''.csv''
      \<and> \<not> endsWith (toLowerCase filename) ''lod-meta.json''
      \<and> \<not> endsWith (toLowerCase filename) ''.sog''
      \<and> \<not> endsWith (toLowerCase filename) ''meta.json''
      \<and> \<not> endsWith (toLowerCase filename) ''.compressed.ply''
      \<and> \<not> endsWith (toLowerCase filename) ''.ply''
      \<and> endsWith (toLowerCase filename) ''.html'')
 \<and> (\<not> endsWith (toLowerCase filename) ''.csv''
      \<and> \<not> endsWith (toLowerCase filename) ''lod-meta.json''
      \<and> \<not> endsWith (toLowerCase filename) ''.sog''
      \<and> \<not> endsWith (toLowerCase filename) ''meta.json''
      \<and> \<not> endsWith (toLowerCase filename) ''.compressed.ply''
      \<and> \<not> endsWith (toLowerCase filename) ''.ply''
      \<and> \<not> endsWith (toLowerCase filename) ''.html'' \<longrightarrow>
      getOutputFormat filename = Inl (Error (''Unsupported output file type: '' @ filename)))"
proof -
  have a: "endsWith (toLowerCase filename) ''.compressed.ply'' \<longrightarrow>
      getOutputFormat filename = Inr CompressedPly \<and> getOutputFormat filename \<noteq> Inr Ply"
    using compressed_ply_excludes [of "toLowerCase filename"]
    by (simp add: getOutputFormat_def Let_def)
  have b: "endsWith (toLowerCase filename) ''lod-meta.json'' \<longrightarrow>
      getOutputFormat filename = Inr Lod \<and> getOutputFormat filename \<noteq> Inr Sog"
    using lod_meta_excludes [of "toLowerCase filename"]
    by (simp add: getOutputFormat_def Let_def)
  have c: "getOutputFormat (p @ ''.compressed.ply'') = Inr CompressedPly"
    using compressed_ply_excludes [of "toLowerCase (p @ ''.compressed.ply'')"]
      endsWith_append [of "toLowerCase p" "''.compressed.ply''"]
    by (simp add: getOutputFormat_def Let_def toLowerCase_append toLowerCase_compressed_ply
        del: append.simps)
  have d: "getOutputFormat (p @ ''lod-meta.json'') = Inr Lod"
    using lod_meta_excludes [of "toLowerCase (p @ ''lod-meta.json'')"]
      endsWith_append [of "toLowerCase p" "''lod-meta.json''"]
    by (simp add: getOutputFormat_def Let_def toLowerCase_append toLowerCase_lod_meta)
  have e: "getOutputFormat filename = Inr Csv \<longleftrightarrow> endsWith (toLowerCase filename) ''.csv''"
    by (simp add: getOutputFormat_def Let_def)
  show ?thesis
    apply (intro conjI)
              apply (rule a)
             apply (rule b)
            apply (rule c)
           apply (rule d)
          apply (rule e)
         apply (simp_all add: getOutputFormat_def Let_def)
    done
qed

text \<open>
  The theorem at three filenames: a mixed-case compressed ply, a lod-meta.json and a
  name with no known suffix.
\<close>

theorem getOutputFormat_first_match_witness:
  "endsWith (toLowerCase ''X.Compressed.PLY'') ''.compressed.ply''
   \<and> getOutputFormat ''X.Compressed.PLY'' = Inr CompressedPly
   \<and> endsWith (toLowerCase ''a/lod-meta.json'') ''lod-meta.json''
   \<and> getOutputFormat ''a/lod-meta.json'' = Inr Lod
   \<and> getOutputFormat ''a.txt'' = Inl (Error ''Unsupported output file type: a.txt'')"
proof -
  have h1: "endsWith (toLowerCase ''X.Compressed.PLY'') ''.compressed.ply''"
    by (simp add: endsWith_def toLowerCase_def lowerChar_def)
  have h2: "endsWith (toLowerCase ''a/lod-meta.json'') ''lod-meta.json''"
    by (simp add: endsWith_def toLowerCase_def lowerChar_def)
  have h3: "\<not> endsWith (toLowerCase ''a.txt'') ''.csv''
      \<and> \<not> endsWith (toLowerCase ''a.txt'') ''lod-meta.json''
      \<and> \<not> endsWith (toLowerCase ''a.txt'') ''.sog''
      \<and> \<not> endsWith (toLowerCase ''a.txt'') ''meta.json''
      \<and> \<not> endsWith (toLowerCase ''a.txt'') ''.compressed.ply''
      \<and> \<not> endsWith (toLowerCase ''a.txt'') ''.ply''
      \<and> \<not> endsWith (toLowerCase ''a.txt'') ''.html''"
    by (simp add: endsWith_def toLowerCase_def lowerChar_def)
  show ?thesis
    using h1 h2 h3 getOutputFormat_first_match [of "''X.Compressed.PLY''"]
      getOutputFormat_first_match [of "''a/lod-meta.json''"]
      getOutputFormat_first_match [of "''a.txt''"]
    by simp
qed

section \<open>The splat schema\<close>

lemma isGSDataTable_names:
  "isGSDataTable t \<longleftrightarrow> set gsColumns \<subseteq> name ` set (columns t)"
  by (auto simp: isGSDataTable_def hasColumn_def list_all_iff list_ex_iff)

text \<open>
  C5, as the spec counts it: there are 13 required column names whose presence decides
  \<open>isGSDataTable\<close>. No set of 13 names does: the predicate tests 14 names.
\<close>

theorem isGSDataTable_not_13_columns:
  "\<not> (\<exists>S. card S = 13
        \<and> (\<forall>t :: int DataTable. isGSDataTable t \<longleftrightarrow> S \<subseteq> name ` set (columns t)))"
proof
  assume "\<exists>S. card S = 13
        \<and> (\<forall>t :: int DataTable. isGSDataTable t \<longleftrightarrow> S \<subseteq> name ` set (columns t))"
  then obtain S where c: "card S = 13"
    and iff: "\<And>t :: int DataTable. isGSDataTable t \<longleftrightarrow> S \<subseteq> name ` set (columns t)"
    by blast
  define mk :: "string \<Rightarrow> int Column"
    where "mk n = \<lparr>name = n, dataType = Float32, data = []\<rparr>" for n
  have nm: "\<And>xs. name ` set (map mk xs) = set xs" by (auto simp: mk_def image_iff)
  from c have "finite S" using card.infinite by fastforce
  then obtain xs where xs: "set xs = S" using finite_list by blast
  have "S \<subseteq> set gsColumns"
    using iff [of "\<lparr>columns = map mk gsColumns\<rparr>"]
      isGSDataTable_names [of "\<lparr>columns = map mk gsColumns\<rparr>"] nm [of gsColumns]
    by simp
  moreover have "set gsColumns \<subseteq> S"
    using iff [of "\<lparr>columns = map mk xs\<rparr>"]
      isGSDataTable_names [of "\<lparr>columns = map mk xs\<rparr>"] nm [of xs] xs
    by simp
  ultimately have "S = set gsColumns" by blast
  then have "card S = 14" by (simp add: gsColumns_def)
  with c show False by simp
qed

text \<open>
  C5, amended: \<open>isGSDataTable\<close> returns true exactly when all of the 14 names x, y, z,
  rot_0..rot_3, scale_0..scale_2, f_dc_0..f_dc_2 and opacity are names of columns of the
  table, and false as soon as one is absent. Only the set of column names counts: a
  table accepted stays accepted under any reordering of its columns and any extra
  columns.
\<close>

theorem isGSDataTable_required_columns:
  "(isGSDataTable t \<longleftrightarrow>
      {''x'', ''y'', ''z'', ''rot_0'', ''rot_1'', ''rot_2'', ''rot_3'',
       ''scale_0'', ''scale_1'', ''scale_2'', ''f_dc_0'', ''f_dc_1'', ''f_dc_2'',
       ''opacity''} \<subseteq> name ` set (columns t))
   \<and> card {''x'', ''y'', ''z'', ''rot_0'', ''rot_1'', ''rot_2'', ''rot_3'',
       ''scale_0'', ''scale_1'', ''scale_2'', ''f_dc_0'', ''f_dc_1'', ''f_dc_2'',
       ''opacity''} = 14
   \<and> (isGSDataTable t \<and> set (map name (columns t)) \<subseteq> set (map name (columns t'))
        \<longrightarrow> isGSDataTable t')"
proof (intro conjI)
  show "isGSDataTable t \<longleftrightarrow>
      {''x'', ''y'', ''z'', ''rot_0'', ''rot_1'', ''rot_2'', ''rot_3'',
       ''scale_0'', ''scale_1'', ''scale_2'', ''f_dc_0'', ''f_dc_1'', ''f_dc_2'',
       ''opacity''} \<subseteq> name ` set (columns t)"
    unfolding isGSDataTable_names by (simp add: gsColumns_def)
  show "card {''x'', ''y'', ''z'', ''rot_0'', ''rot_1'', ''rot_2'', ''rot_3'',
       ''scale_0'', ''scale_1'', ''scale_2'', ''f_dc_0'', ''f_dc_1'', ''f_dc_2'',
       ''opacity''} = 14"
    by simp
  show "isGSDataTable t \<and> set (map name (columns t)) \<subseteq> set (map name (columns t'))
        \<longrightarrow> isGSDataTable t'"
    unfolding isGSDataTable_names by auto
qed

text \<open>
  The theorem at a table with exactly the 14 columns, at one with the same columns
  reordered and one more, and at a table with x, y and z only.
\<close>

theorem isGSDataTable_required_columns_witness:
  "isGSDataTable gsExample
   \<and> set (map name (columns gsExample)) \<subseteq> set (map name (columns gsExampleExtra))
   \<and> isGSDataTable gsExampleExtra
   \<and> \<not> isGSDataTable xyzExample"
proof -
  have h1: "isGSDataTable gsExample"
    by (simp add: isGSDataTable_def hasColumn_def gsColumns_def gsExample_def)
  have h2: "set (map name (columns gsExample)) \<subseteq> set (map name (columns gsExampleExtra))"
    by (simp add: gsExample_def gsExampleExtra_def)
  have h3: "\<not> {''x'', ''y'', ''z'', ''rot_0'', ''rot_1'', ''rot_2'', ''rot_3'',
       ''scale_0'', ''scale_1'', ''scale_2'', ''f_dc_0'', ''f_dc_1'', ''f_dc_2'',
       ''opacity''} \<subseteq> name ` set (columns xyzExample)"
    by (simp add: xyzExample_def)
  have "isGSDataTable gsExampleExtra"
    using h1 h2 isGSDataTable_required_columns [of gsExample gsExampleExtra] by blast
  moreover have "\<not> isGSDataTable xyzExample"
    using h3 isGSDataTable_required_columns [of xyzExample] by blast
  ultimately show ?thesis using h1 h2 by blast
qed

section \<open>Properties of combine\<close>

text \<open>C8. \<open>combine\<close> of a one-table sequence returns that table, unchanged.\<close>

theorem combine_singleton: "combine [t] = Inr t"
  by (simp add: combine_def)

lemma fmc_None_iff: "findMatchingColumn cs c = None \<longleftrightarrow> colId c \<notin> colId ` set cs"
  by (induction cs) (auto simp: colId_def)

lemma fmc_SomeD:
  "findMatchingColumn cs c = Some i \<Longrightarrow> i < length cs \<and> colId (cs ! i) = colId c"
  by (induction cs arbitrary: i) (auto simp: colId_def split: if_splits)

lemma fmc_cong:
  "map colId cs = map colId cs' \<Longrightarrow> findMatchingColumn cs c = findMatchingColumn cs' c"
proof (induction cs arbitrary: cs')
  case Nil
  then show ?case by simp
next
  case (Cons a cs)
  then obtain b bs where cs': "cs' = b # bs" by (cases cs') auto
  with Cons.prems have ab: "colId a = colId b" and t: "map colId cs = map colId bs" by auto
  have ih: "findMatchingColumn cs c = findMatchingColumn bs c" using Cons.IH [OF t] .
  from ab have "name a = name b \<and> dataType a = dataType b" by (simp add: colId_def)
  with ih cs' show ?case by simp
qed

lemma fmc_distinct:
  "distinct (map colId cs) \<Longrightarrow> j < length cs \<Longrightarrow> colId (cs ! j) = colId c \<Longrightarrow>
   findMatchingColumn cs c = Some j"
proof (induction cs arbitrary: j)
  case Nil
  then show ?case by simp
next
  case (Cons a cs)
  show ?case
  proof (cases j)
    case 0
    with Cons.prems show ?thesis by (simp add: colId_def)
  next
    case (Suc k)
    with Cons.prems have k: "k < length cs" "colId (cs ! k) = colId c" by auto
    then have "colId c \<in> colId ` set cs" by (metis imageI nth_mem)
    with Cons.prems have "colId a \<noteq> colId c" by auto
    moreover have "findMatchingColumn cs c = Some k" using Cons.IH [of k] Cons.prems k by simp
    ultimately show ?thesis using Suc by (auto simp: colId_def)
  qed
qed

lemma pushNewColumns_ids:
  "colId ` set (pushNewColumns cols cs) = colId ` set cols \<union> colId ` set cs"
  by (induction cs arbitrary: cols) (auto simp: fmc_None_iff)

lemma pushNewColumns_distinct:
  "distinct (map colId cols) \<Longrightarrow> distinct (map colId (pushNewColumns cols cs))"
  by (induction cs arbitrary: cols) (auto simp: fmc_None_iff)

lemma uniqueColumns_ids:
  "colId ` set (uniqueColumns cols ts) =
   colId ` set cols \<union> (\<Union>t \<in> set ts. colId ` set (columns t))"
  by (induction ts arbitrary: cols) (auto simp: pushNewColumns_ids)

lemma uniqueColumns_distinct:
  "distinct (map colId cols) \<Longrightarrow> distinct (map colId (uniqueColumns cols ts))"
  by (induction ts arbitrary: cols) (auto simp: pushNewColumns_distinct)

lemma foldl_numRows: "foldl (\<lambda>sum dataTable. sum + numRows dataTable) a ts = a + sum_list (map numRows ts)"
  by (induction ts arbitrary: a) auto

lemma totalRows_sum: "totalRows ts = sum_list (map numRows ts)"
  by (simp add: totalRows_def foldl_numRows)

lemma colId_newColumn: "colId (newColumn n c) = colId c"
  by (simp add: colId_def newColumn_def)

lemma typedArraySet_Inr:
  "offset + length source \<le> length target \<Longrightarrow>
   typedArraySet target source offset =
     Inr (take offset target @ source @ drop (offset + length source) target)"
  by (simp add: typedArraySet_def)

lemma nth_set_result:
  "offset + length source \<le> length target \<Longrightarrow> r < length target \<Longrightarrow>
   (take offset target @ source @ drop (offset + length source) target) ! r =
     (if offset \<le> r \<and> r < offset + length source then source ! (r - offset) else target ! r)"
  by (auto simp: nth_append min_def)


lemma ids_of_map: "colId ` set xs = set (map colId xs)" by simp

lemma copyColumns_spec:
  assumes "\<forall>c\<in>set cs. colId c \<in> colId ` set rc"
    and "\<forall>c\<in>set cs. length (data c) = n"
    and "\<forall>c\<in>set rc. length (data c) = L"
    and "off + n \<le> L"
  shows "\<exists>rc'. copyColumns rc cs off = Inr rc' \<and> map colId rc' = map colId rc
     \<and> (\<forall>c\<in>set rc'. length (data c) = L)
     \<and> (\<forall>j<length rc. \<forall>r<L. r < off \<or> off + n \<le> r \<longrightarrow> data (rc' ! j) ! r = data (rc ! j) ! r)
     \<and> (\<forall>j<length rc. colId (rc ! j) \<notin> colId ` set cs \<longrightarrow> rc' ! j = rc ! j)
     \<and> (distinct (map colId cs) \<longrightarrow>
          (\<forall>c\<in>set cs. \<forall>j. findMatchingColumn rc c = Some j \<longrightarrow>
             (\<forall>r<n. data (rc' ! j) ! (off + r) = data c ! r)))"
  using assms
proof (induction cs arbitrary: rc)
  case Nil
  then show ?case by simp
next
  case (Cons c cs)
  from Cons.prems(1) have "findMatchingColumn rc c \<noteq> None" by (simp add: fmc_None_iff)
  then obtain i where fi: "findMatchingColumn rc c = Some i" by blast
  then have i: "i < length rc" and idi: "colId (rc ! i) = colId c" using fmc_SomeD by blast+
  have lc: "length (data c) = n" using Cons.prems(2) by simp
  have li: "length (data (rc ! i)) = L" using Cons.prems(3) i by simp
  define d where "d = take off (data (rc ! i)) @ data c @ drop (off + n) (data (rc ! i))"
  have set_ok: "typedArraySet (data (rc ! i)) (data c) off = Inr d"
    using typedArraySet_Inr [of off "data c" "data (rc ! i)"] lc li Cons.prems(4) by (simp add: d_def)
  have ld: "length d = L" using lc li Cons.prems(4) by (simp add: d_def)
  have dn: "\<And>r. r < L \<Longrightarrow> d ! r = (if off \<le> r \<and> r < off + n then data c ! (r - off) else data (rc ! i) ! r)"
    using nth_set_result [of off "data c" "data (rc ! i)"] lc li Cons.prems(4) by (simp add: d_def)
  define rc1 where "rc1 = rc[i := (rc ! i)\<lparr>data := d\<rparr>]"
  have len1: "length rc1 = length rc" by (simp add: rc1_def)
  have nth1: "\<And>j. j < length rc \<Longrightarrow> rc1 ! j = (if j = i then (rc ! i)\<lparr>data := d\<rparr> else rc ! j)"
    by (simp add: rc1_def nth_list_update)
  have ids1: "map colId rc1 = map colId rc"
    by (rule nth_equalityI) (auto simp: len1 nth1 colId_def)
  have lens1: "\<forall>c\<in>set rc1. length (data c) = L"
  proof
    fix x assume "x \<in> set rc1"
    then obtain j where "j < length rc" "x = rc1 ! j" by (metis in_set_conv_nth len1)
    then show "length (data x) = L" using nth1 [of j] ld Cons.prems(3) by (auto split: if_splits)
  qed
  have p1: "\<forall>c\<in>set cs. colId c \<in> colId ` set rc1"
    using Cons.prems(1) ids1 by (metis ids_of_map list.set_intros(2))
  have p2: "\<forall>c\<in>set cs. length (data c) = n" using Cons.prems(2) by simp
  from Cons.IH [OF p1 p2 lens1 Cons.prems(4)]
  obtain rc' where r: "copyColumns rc1 cs off = Inr rc'" and rid: "map colId rc' = map colId rc1"
    and rlen: "\<forall>c\<in>set rc'. length (data c) = L"
    and rout: "\<forall>j<length rc1. \<forall>r<L. r < off \<or> off + n \<le> r \<longrightarrow> data (rc' ! j) ! r = data (rc1 ! j) ! r"
    and rsame: "\<forall>j<length rc1. colId (rc1 ! j) \<notin> colId ` set cs \<longrightarrow> rc' ! j = rc1 ! j"
    and rwr: "distinct (map colId cs) \<longrightarrow>
          (\<forall>c\<in>set cs. \<forall>j. findMatchingColumn rc1 c = Some j \<longrightarrow>
             (\<forall>r<n. data (rc' ! j) ! (off + r) = data c ! r))"
    by blast
  have run: "copyColumns rc (c # cs) off = Inr rc'"
    using fi set_ok r by (simp add: rc1_def)
  have c1: "map colId rc' = map colId rc" using rid ids1 by simp
  have id1: "\<And>j. j < length rc \<Longrightarrow> colId (rc1 ! j) = colId (rc ! j)"
    using ids1 len1 by (metis nth_map)
  have c3: "\<forall>j<length rc. \<forall>r<L. r < off \<or> off + n \<le> r \<longrightarrow> data (rc' ! j) ! r = data (rc ! j) ! r"
  proof (intro allI impI)
    fix j r assume j: "j < length rc" and r: "r < L" and o: "r < off \<or> off + n \<le> r"
    have "data (rc' ! j) ! r = data (rc1 ! j) ! r" using rout j r o len1 by metis
    also have "\<dots> = data (rc ! j) ! r" using nth1 [OF j] dn [OF r] o by auto
    finally show "data (rc' ! j) ! r = data (rc ! j) ! r" .
  qed
  have c4: "\<forall>j<length rc. colId (rc ! j) \<notin> colId ` set (c # cs) \<longrightarrow> rc' ! j = rc ! j"
  proof (intro allI impI)
    fix j assume j: "j < length rc" and n: "colId (rc ! j) \<notin> colId ` set (c # cs)"
    then have "j \<noteq> i" using idi by auto
    then have "rc1 ! j = rc ! j" using nth1 [OF j] by simp
    moreover have "rc' ! j = rc1 ! j" using rsame j len1 id1 [OF j] n by simp
    ultimately show "rc' ! j = rc ! j" by simp
  qed
  have c5: "distinct (map colId (c # cs)) \<longrightarrow>
          (\<forall>c'\<in>set (c # cs). \<forall>j. findMatchingColumn rc c' = Some j \<longrightarrow>
             (\<forall>r<n. data (rc' ! j) ! (off + r) = data c' ! r))"
  proof (intro impI ballI allI)
    fix c' j r
    assume dist: "distinct (map colId (c # cs))" and c': "c' \<in> set (c # cs)"
      and fj: "findMatchingColumn rc c' = Some j" and r: "r < n"
    show "data (rc' ! j) ! (off + r) = data c' ! r"
    proof (cases "c' \<in> set cs")
      case True
      have "findMatchingColumn rc1 c' = Some j" using fj fmc_cong [OF ids1] by simp
      then show ?thesis using rwr dist True r by simp
    next
      case False
      with c' have e: "c' = c" by simp
      with fj fi have ji: "j = i" by simp
      from dist have "colId c \<notin> colId ` set cs" by simp
      then have "colId (rc1 ! i) \<notin> colId ` set cs" using id1 [OF i] idi by simp
      then have "rc' ! i = rc1 ! i" using rsame i len1 by simp
      then have "data (rc' ! i) = d" using nth1 [OF i] by simp
      moreover have "off + r < L" using r Cons.prems(4) by simp
      ultimately show ?thesis using dn [of "off + r"] r e ji by simp
    qed
  qed
  show ?case using run c1 rlen c3 c4 c5 by blast
qed


lemma rowOffsetOf_0: "rowOffsetOf ts 0 = 0"
  by (simp add: rowOffsetOf_def)

lemma rowOffsetOf_Suc: "rowOffsetOf (t # ts) (Suc k) = numRows t + rowOffsetOf ts k"
  by (simp add: rowOffsetOf_def)

lemma rowOffsetOf_bound:
  "k < length ts \<Longrightarrow> rowOffsetOf ts k + numRows (ts ! k) \<le> sum_list (map numRows ts)"
proof (induction ts arbitrary: k)
  case Nil
  then show ?case by simp
next
  case (Cons t ts)
  show ?case
  proof (cases k)
    case 0
    then show ?thesis by (simp add: rowOffsetOf_0)
  next
    case (Suc m)
    with Cons.prems have "m < length ts" by simp
    from Cons.IH [OF this] Suc show ?thesis by (simp add: rowOffsetOf_Suc)
  qed
qed

lemma table_invD: "table_inv t \<Longrightarrow> c \<in> set (columns t) \<Longrightarrow> length (data c) = numRows t"
  by (simp add: table_inv_def list_all_iff)

lemma copyTables_spec:
  assumes "\<forall>t\<in>set ts. table_inv t"
    and "\<forall>t\<in>set ts. \<forall>c\<in>set (columns t). colId c \<in> colId ` set rc"
    and "\<forall>c\<in>set rc. length (data c) = L"
    and "off + sum_list (map numRows ts) \<le> L"
  shows "\<exists>rc'. copyTables rc ts off = Inr rc' \<and> map colId rc' = map colId rc
     \<and> (\<forall>c\<in>set rc'. length (data c) = L)
     \<and> (\<forall>j<length rc. \<forall>r<L. r < off \<or> off + sum_list (map numRows ts) \<le> r \<longrightarrow>
           data (rc' ! j) ! r = data (rc ! j) ! r)
     \<and> (\<forall>k<length ts. distinctIds (ts ! k) \<longrightarrow>
          (\<forall>c\<in>set (columns (ts ! k)). \<forall>j. findMatchingColumn rc c = Some j \<longrightarrow>
             (\<forall>r<numRows (ts ! k). data (rc' ! j) ! (off + rowOffsetOf ts k + r) = data c ! r)))
     \<and> (\<forall>k<length ts. \<forall>j<length rc. colId (rc ! j) \<notin> colId ` set (columns (ts ! k)) \<longrightarrow>
          (\<forall>r. off + rowOffsetOf ts k \<le> r \<and> r < off + rowOffsetOf ts k + numRows (ts ! k) \<longrightarrow>
             data (rc' ! j) ! r = data (rc ! j) ! r))"
  using assms
proof (induction ts arbitrary: rc off)
  case Nil
  then show ?case by simp
next
  case (Cons t ts)
  let ?n = "numRows t"
  let ?S = "sum_list (map numRows ts)"
  have a1: "\<forall>c\<in>set (columns t). colId c \<in> colId ` set rc" using Cons.prems(2) by simp
  have a2: "\<forall>c\<in>set (columns t). length (data c) = ?n"
    using Cons.prems(1) table_invD by (metis list.set_intros(1))
  have a4: "off + ?n \<le> L" using Cons.prems(4) by simp
  from copyColumns_spec [OF a1 a2 Cons.prems(3) a4]
  obtain rc1 where s1: "copyColumns rc (columns t) off = Inr rc1"
    and ids1: "map colId rc1 = map colId rc"
    and lens1: "\<forall>c\<in>set rc1. length (data c) = L"
    and out1: "\<forall>j<length rc. \<forall>r<L. r < off \<or> off + ?n \<le> r \<longrightarrow> data (rc1 ! j) ! r = data (rc ! j) ! r"
    and same1: "\<forall>j<length rc. colId (rc ! j) \<notin> colId ` set (columns t) \<longrightarrow> rc1 ! j = rc ! j"
    and wr1: "distinct (map colId (columns t)) \<longrightarrow>
          (\<forall>c\<in>set (columns t). \<forall>j. findMatchingColumn rc c = Some j \<longrightarrow>
             (\<forall>r<?n. data (rc1 ! j) ! (off + r) = data c ! r))"
    by blast
  have len1: "length rc1 = length rc" using ids1 by (metis length_map)
  have id1: "\<And>j. j < length rc \<Longrightarrow> colId (rc1 ! j) = colId (rc ! j)"
    using ids1 len1 by (metis nth_map)
  have b1: "\<forall>t\<in>set ts. table_inv t" using Cons.prems(1) by simp
  have b2: "\<forall>t\<in>set ts. \<forall>c\<in>set (columns t). colId c \<in> colId ` set rc1"
    using Cons.prems(2) ids1 by (metis ids_of_map list.set_intros(2))
  have b4: "(off + ?n) + ?S \<le> L" using Cons.prems(4) by simp
  from Cons.IH [OF b1 b2 lens1 b4]
  obtain rc' where s2: "copyTables rc1 ts (off + ?n) = Inr rc'"
    and ids2: "map colId rc' = map colId rc1"
    and lens2: "\<forall>c\<in>set rc'. length (data c) = L"
    and out2: "\<forall>j<length rc1. \<forall>r<L. r < off + ?n \<or> off + ?n + ?S \<le> r \<longrightarrow>
           data (rc' ! j) ! r = data (rc1 ! j) ! r"
    and wr2: "\<forall>k<length ts. distinctIds (ts ! k) \<longrightarrow>
          (\<forall>c\<in>set (columns (ts ! k)). \<forall>j. findMatchingColumn rc1 c = Some j \<longrightarrow>
             (\<forall>r<numRows (ts ! k). data (rc' ! j) ! (off + ?n + rowOffsetOf ts k + r) = data c ! r))"
    and gap2: "\<forall>k<length ts. \<forall>j<length rc1. colId (rc1 ! j) \<notin> colId ` set (columns (ts ! k)) \<longrightarrow>
          (\<forall>r. off + ?n + rowOffsetOf ts k \<le> r \<and> r < off + ?n + rowOffsetOf ts k + numRows (ts ! k) \<longrightarrow>
             data (rc' ! j) ! r = data (rc1 ! j) ! r)"
    by blast
  have run: "copyTables rc (t # ts) off = Inr rc'" using s1 s2 by simp
  have c1: "map colId rc' = map colId rc" using ids1 ids2 by simp
  have c3: "\<forall>j<length rc. \<forall>r<L. r < off \<or> off + sum_list (map numRows (t # ts)) \<le> r \<longrightarrow>
           data (rc' ! j) ! r = data (rc ! j) ! r"
  proof (intro allI impI)
    fix j r assume j: "j < length rc" and r: "r < L"
      and o: "r < off \<or> off + sum_list (map numRows (t # ts)) \<le> r"
    then have o2: "r < off + ?n \<or> off + ?n + ?S \<le> r" and o1: "r < off \<or> off + ?n \<le> r" by auto
    have "data (rc' ! j) ! r = data (rc1 ! j) ! r" using out2 j r o2 len1 by metis
    also have "\<dots> = data (rc ! j) ! r" using out1 j r o1 by metis
    finally show "data (rc' ! j) ! r = data (rc ! j) ! r" .
  qed
  have c4: "\<forall>k<length (t # ts). distinctIds ((t # ts) ! k) \<longrightarrow>
          (\<forall>c\<in>set (columns ((t # ts) ! k)). \<forall>j. findMatchingColumn rc c = Some j \<longrightarrow>
             (\<forall>r<numRows ((t # ts) ! k).
                data (rc' ! j) ! (off + rowOffsetOf (t # ts) k + r) = data c ! r))"
  proof (intro allI impI ballI)
    fix k c j r
    assume k: "k < length (t # ts)" and d: "distinctIds ((t # ts) ! k)"
      and c: "c \<in> set (columns ((t # ts) ! k))" and fj: "findMatchingColumn rc c = Some j"
      and r: "r < numRows ((t # ts) ! k)"
    have j: "j < length rc" using fmc_SomeD [OF fj] by simp
    show "data (rc' ! j) ! (off + rowOffsetOf (t # ts) k + r) = data c ! r"
    proof (cases k)
      case 0
      with r have r0: "r < ?n" by simp
      then have rL: "off + r < L" and lt: "off + r < off + ?n" using a4 by auto
      have "data (rc' ! j) ! (off + r) = data (rc1 ! j) ! (off + r)"
        using out2 j rL lt len1 by metis
      also have "\<dots> = data c ! r" using wr1 d c fj r0 0 by (simp add: distinctIds_def)
      finally show ?thesis using 0 by (simp add: rowOffsetOf_0)
    next
      case (Suc m)
      with k have m: "m < length ts" by simp
      have f1: "findMatchingColumn rc1 c = Some j" using fj fmc_cong [OF ids1] by simp
      have "data (rc' ! j) ! (off + ?n + rowOffsetOf ts m + r) = data c ! r"
        using wr2 m d c f1 r Suc by simp
      then show ?thesis using Suc by (simp add: rowOffsetOf_Suc add.assoc)
    qed
  qed
  have c5: "\<forall>k<length (t # ts). \<forall>j<length rc.
          colId (rc ! j) \<notin> colId ` set (columns ((t # ts) ! k)) \<longrightarrow>
          (\<forall>r. off + rowOffsetOf (t # ts) k \<le> r
                \<and> r < off + rowOffsetOf (t # ts) k + numRows ((t # ts) ! k) \<longrightarrow>
             data (rc' ! j) ! r = data (rc ! j) ! r)"
  proof (intro allI impI)
    fix k j r
    assume k: "k < length (t # ts)" and j: "j < length rc"
      and n: "colId (rc ! j) \<notin> colId ` set (columns ((t # ts) ! k))"
      and r: "off + rowOffsetOf (t # ts) k \<le> r
                \<and> r < off + rowOffsetOf (t # ts) k + numRows ((t # ts) ! k)"
    show "data (rc' ! j) ! r = data (rc ! j) ! r"
    proof (cases k)
      case 0
      with r have r0: "off \<le> r" "r < off + ?n" by (simp_all add: rowOffsetOf_0)
      then have rL: "r < L" using a4 by simp
      have "data (rc' ! j) ! r = data (rc1 ! j) ! r" using out2 j rL r0 len1 by metis
      moreover have "rc1 ! j = rc ! j" using same1 j n 0 by simp
      ultimately show ?thesis by simp
    next
      case (Suc m)
      with k have m: "m < length ts" by simp
      from r Suc have r1: "off + ?n + rowOffsetOf ts m \<le> r"
          "r < off + ?n + rowOffsetOf ts m + numRows (ts ! m)"
        by (simp_all add: rowOffsetOf_Suc add.assoc)
      have "r < off + ?n + ?S" using r1 rowOffsetOf_bound [OF m] by simp
      then have rL: "r < L" using b4 by simp
      have "colId (rc1 ! j) \<notin> colId ` set (columns (ts ! m))" using n Suc id1 [OF j] by simp
      then have "data (rc' ! j) ! r = data (rc1 ! j) ! r" using gap2 m j len1 r1 by simp
      also have "\<dots> = data (rc ! j) ! r" using out1 j rL r1 by simp
      finally show ?thesis .
    qed
  qed
  show ?case using run c1 lens2 c3 c4 c5 by blast
qed


lemma combine_general:
  assumes inv: "\<forall>t\<in>set (t0 # t1 # rest). table_inv t"
  shows "\<exists>rc'. combine (t0 # t1 # rest) = Inr \<lparr>columns = rc'\<rparr>
     \<and> colId ` set rc' = (\<Union>t\<in>set (t0 # t1 # rest). colId ` set (columns t))
     \<and> (\<forall>c\<in>set rc'. length (data c) = sum_list (map numRows (t0 # t1 # rest)))
     \<and> (\<forall>k<length (t0 # t1 # rest). distinctIds ((t0 # t1 # rest) ! k) \<longrightarrow>
          (\<forall>c\<in>set (columns ((t0 # t1 # rest) ! k)). \<exists>j. findMatchingColumn rc' c = Some j \<and>
             (\<forall>r<numRows ((t0 # t1 # rest) ! k).
                data (rc' ! j) ! (rowOffsetOf (t0 # t1 # rest) k + r) = data c ! r)))
     \<and> (\<forall>k<length (t0 # t1 # rest). \<forall>c\<in>set rc'.
          colId c \<notin> colId ` set (columns ((t0 # t1 # rest) ! k)) \<longrightarrow>
          (\<forall>r. rowOffsetOf (t0 # t1 # rest) k \<le> r
                \<and> r < rowOffsetOf (t0 # t1 # rest) k + numRows ((t0 # t1 # rest) ! k) \<longrightarrow>
             data c ! r = 0))"
proof -
  let ?ts = "t0 # t1 # rest"
  let ?L = "sum_list (map numRows ?ts)"
  define cols where "cols = uniqueColumns (columns t0) (t1 # rest)"
  define rc0 :: "'a Column list" where "rc0 = map (newColumn (totalRows ?ts)) cols"
  have ids0: "map colId rc0 = map colId cols" by (simp add: rc0_def colId_newColumn)
  have idset: "colId ` set rc0 = (\<Union>t\<in>set ?ts. colId ` set (columns t))"
    using ids0 uniqueColumns_ids [of "columns t0" "t1 # rest"]
    by (metis (no_types, lifting) UN_insert cols_def ids_of_map list.simps(15))
  have a2: "\<forall>t\<in>set ?ts. \<forall>c\<in>set (columns t). colId c \<in> colId ` set rc0"
    unfolding idset by blast
  have a3: "\<forall>c\<in>set rc0. length (data c) = ?L"
    by (auto simp: rc0_def newColumn_def totalRows_sum)
  have a4: "0 + sum_list (map numRows ?ts) \<le> ?L" by simp
  from copyTables_spec [OF inv a2 a3 a4]
  obtain rc' where run: "copyTables rc0 ?ts 0 = Inr rc'"
    and ids: "map colId rc' = map colId rc0"
    and lens: "\<forall>c\<in>set rc'. length (data c) = ?L"
    and wr: "\<forall>k<length ?ts. distinctIds (?ts ! k) \<longrightarrow>
          (\<forall>c\<in>set (columns (?ts ! k)). \<forall>j. findMatchingColumn rc0 c = Some j \<longrightarrow>
             (\<forall>r<numRows (?ts ! k). data (rc' ! j) ! (0 + rowOffsetOf ?ts k + r) = data c ! r))"
    and gap: "\<forall>k<length ?ts. \<forall>j<length rc0. colId (rc0 ! j) \<notin> colId ` set (columns (?ts ! k)) \<longrightarrow>
          (\<forall>r. 0 + rowOffsetOf ?ts k \<le> r \<and> r < 0 + rowOffsetOf ?ts k + numRows (?ts ! k) \<longrightarrow>
             data (rc' ! j) ! r = data (rc0 ! j) ! r)"
    by blast
  have len: "length rc' = length rc0" using ids by (metis length_map)
  have c0: "combine ?ts = Inr \<lparr>columns = rc'\<rparr>"
    using run by (simp add: combine_def Let_def cols_def rc0_def)
  have c1: "colId ` set rc' = (\<Union>t\<in>set ?ts. colId ` set (columns t))"
    using idset ids by (metis ids_of_map)
  have c3: "\<forall>k<length ?ts. distinctIds (?ts ! k) \<longrightarrow>
          (\<forall>c\<in>set (columns (?ts ! k)). \<exists>j. findMatchingColumn rc' c = Some j \<and>
             (\<forall>r<numRows (?ts ! k). data (rc' ! j) ! (rowOffsetOf ?ts k + r) = data c ! r))"
  proof (intro allI impI ballI)
    fix k c assume k: "k < length ?ts" and d: "distinctIds (?ts ! k)"
      and c: "c \<in> set (columns (?ts ! k))"
    have "?ts ! k \<in> set ?ts" using k nth_mem by blast
    then have "colId c \<in> colId ` set rc0" using a2 c by blast
    then obtain j where fj: "findMatchingColumn rc0 c = Some j"
      using fmc_None_iff [of rc0 c] by auto
    then have "findMatchingColumn rc' c = Some j" using fmc_cong [OF ids] by simp
    moreover have "\<forall>r<numRows (?ts ! k). data (rc' ! j) ! (rowOffsetOf ?ts k + r) = data c ! r"
      using wr k d c fj by simp
    ultimately show "\<exists>j. findMatchingColumn rc' c = Some j \<and>
             (\<forall>r<numRows (?ts ! k). data (rc' ! j) ! (rowOffsetOf ?ts k + r) = data c ! r)"
      by blast
  qed
  have c4: "\<forall>k<length ?ts. \<forall>c\<in>set rc'. colId c \<notin> colId ` set (columns (?ts ! k)) \<longrightarrow>
          (\<forall>r. rowOffsetOf ?ts k \<le> r \<and> r < rowOffsetOf ?ts k + numRows (?ts ! k) \<longrightarrow>
             data c ! r = 0)"
  proof (intro allI impI ballI)
    fix k c r assume k: "k < length ?ts" and c: "c \<in> set rc'"
      and n: "colId c \<notin> colId ` set (columns (?ts ! k))"
      and r: "rowOffsetOf ?ts k \<le> r \<and> r < rowOffsetOf ?ts k + numRows (?ts ! k)"
    from c obtain j where j: "j < length rc'" and cj: "c = rc' ! j" by (metis in_set_conv_nth)
    have j0: "j < length rc0" using j len by simp
    have "colId (rc0 ! j) = colId (rc' ! j)" using ids j j0 by (metis nth_map)
    then have n0: "colId (rc0 ! j) \<notin> colId ` set (columns (?ts ! k))" using n cj by simp
    have "data (rc' ! j) ! r = data (rc0 ! j) ! r" using gap k j0 n0 r by simp
    moreover have "r < ?L" using r rowOffsetOf_bound [OF k] by linarith
    moreover have "data (rc0 ! j) = replicate ?L 0"
      using j0 len by (simp add: rc0_def newColumn_def totalRows_sum)
    ultimately show "data c ! r = 0" using cj by simp
  qed
  show ?thesis using c0 c1 lens c3 c4 by blast
qed

lemma slice_eqI:
  "off + n \<le> length xs \<Longrightarrow> length ys = n \<Longrightarrow> (\<forall>r<n. xs ! (off + r) = ys ! r) \<Longrightarrow>
   take n (drop off xs) = ys"
  by (rule nth_equalityI) auto

text \<open>
  C2, as stated, at two well-formed tables of which the first has two columns of the name
  x and the type float32, with the data [1] and [2]: both are copied into the first
  matching output column, the second over the first, and the second output column of
  that identity is never written. No output column of that identity holds the data [1]
  of the first input column at the row offset of its table.
\<close>

theorem combine_duplicate_column_counterexample:
  "table_inv (dupTables ! 0) \<and> table_inv (dupTables ! 1)
   \<and> combine dupTables =
       Inr \<lparr>columns = [\<lparr>name = ''x'', dataType = Float32, data = [2, 3]\<rparr>,
                       \<lparr>name = ''x'', dataType = Float32, data = [0, 0]\<rparr>]\<rparr>
   \<and> data (columns (dupTables ! 0) ! 0) = [1]
   \<and> \<not> list_ex
        (\<lambda>c. sameId c (columns (dupTables ! 0) ! 0)
             \<and> take (numRows (dupTables ! 0)) (drop (rowOffsetOf dupTables 0) (data c))
                 = data (columns (dupTables ! 0) ! 0))
        [\<lparr>name = ''x'', dataType = Float32, data = [2, 3]\<rparr>,
         \<lparr>name = ''x'', dataType = Float32, data = [0, 0]\<rparr>]"
  by (simp add: dupTables_def table_inv_def numRows_def combine_def totalRows_def
      newColumn_def typedArraySet_def rowOffsetOf_def sameId_def)

text \<open>
  C2, amended: for every nonempty sequence of tables that satisfy the table invariant
  (all columns of a table have its \<open>numRows\<close> elements), \<open>combine\<close> returns a table
  whose \<open>numRows\<close> is the sum of the inputs' \<open>numRows\<close>; and for every input table in
  which no two columns share a name and element type, and every column of it, the
  matching output column holds that column's data unchanged from the running row offset
  of the table on.
\<close>

theorem combine_preserves_rows:
  assumes ne: "dataTables \<noteq> []" and inv: "\<forall>t\<in>set dataTables. table_inv t"
  shows "\<exists>result. combine dataTables = Inr result
      \<and> numRows result = sum_list (map numRows dataTables)
      \<and> (\<forall>i<length dataTables. distinctIds (dataTables ! i) \<longrightarrow>
           (\<forall>column\<in>set (columns (dataTables ! i)).
              \<exists>j. findMatchingColumn (columns result) column = Some j
                \<and> take (numRows (dataTables ! i))
                     (drop (rowOffsetOf dataTables i) (data (columns result ! j))) = data column))"
proof -
  from ne obtain t0 ts where dt: "dataTables = t0 # ts" by (cases dataTables) auto
  show ?thesis
  proof (cases ts)
    case Nil
    have inv0: "table_inv t0" using inv dt by simp
    have "\<exists>j. findMatchingColumn (columns t0) column = Some j
                \<and> take (numRows t0) (drop 0 (data (columns t0 ! j))) = data column"
      if d: "distinctIds t0" and c: "column \<in> set (columns t0)" for column
    proof -
      from c obtain j where j: "j < length (columns t0)" and cj: "columns t0 ! j = column"
        by (metis in_set_conv_nth)
      have "findMatchingColumn (columns t0) column = Some j"
        using fmc_distinct [of "columns t0" j column] d j cj by (simp add: distinctIds_def)
      moreover have "length (data column) = numRows t0" using table_invD [OF inv0 c] .
      ultimately show ?thesis using cj by simp
    qed
    then show ?thesis using dt Nil by (simp add: combine_def rowOffsetOf_0)
  next
    case (Cons t1 rest)
    let ?ts = "t0 # t1 # rest"
    let ?L = "sum_list (map numRows ?ts)"
    have inv': "\<forall>t\<in>set ?ts. table_inv t" using inv dt Cons by simp
    from combine_general [OF inv']
    obtain rc' where run: "combine ?ts = Inr \<lparr>columns = rc'\<rparr>"
      and idset: "colId ` set rc' = (\<Union>t\<in>set ?ts. colId ` set (columns t))"
      and lens: "\<forall>c\<in>set rc'. length (data c) = ?L"
      and wr: "\<forall>k<length ?ts. distinctIds (?ts ! k) \<longrightarrow>
          (\<forall>c\<in>set (columns (?ts ! k)). \<exists>j. findMatchingColumn rc' c = Some j \<and>
             (\<forall>r<numRows (?ts ! k). data (rc' ! j) ! (rowOffsetOf ?ts k + r) = data c ! r))"
      by blast
    have rows: "numRows \<lparr>columns = rc'\<rparr> = ?L"
    proof (cases rc')
      case Nil
      with idset have "\<forall>t\<in>set ?ts. columns t = []" by auto
      then have "\<forall>t\<in>set ?ts. numRows t = 0" by (simp add: numRows_def)
      then have "?L = 0" by simp
      with Nil show ?thesis by (simp add: numRows_def)
    next
      case (Cons a as)
      with lens show ?thesis by (simp add: numRows_def)
    qed
    have pres: "\<exists>j. findMatchingColumn rc' column = Some j
                \<and> take (numRows (?ts ! i)) (drop (rowOffsetOf ?ts i) (data (rc' ! j))) = data column"
      if i: "i < length ?ts" and d: "distinctIds (?ts ! i)" and c: "column \<in> set (columns (?ts ! i))"
      for i column
    proof -
      from wr i d c obtain j where fj: "findMatchingColumn rc' column = Some j"
        and eq: "\<forall>r<numRows (?ts ! i). data (rc' ! j) ! (rowOffsetOf ?ts i + r) = data column ! r"
        by blast
      have "j < length rc'" using fmc_SomeD [OF fj] by simp
      then have l: "length (data (rc' ! j)) = ?L" using lens by simp
      have "?ts ! i \<in> set ?ts" using i nth_mem by blast
      then have lc: "length (data column) = numRows (?ts ! i)" using inv' c table_invD by blast
      have "rowOffsetOf ?ts i + numRows (?ts ! i) \<le> length (data (rc' ! j))"
        using rowOffsetOf_bound [OF i] l by simp
      from slice_eqI [OF this lc eq] fj show ?thesis by blast
    qed
    show ?thesis using run rows pres dt Cons by simp
  qed
qed

text \<open>The theorem at the two tables of \<open>mixedTables\<close>, of 2 and 3 rows.\<close>

theorem combine_preserves_rows_witness:
  "mixedTables \<noteq> [] \<and> list_all table_inv mixedTables
   \<and> list_all distinctIds mixedTables
   \<and> sum_list (map numRows mixedTables) = 5
   \<and> (\<exists>result. combine mixedTables = Inr result
      \<and> numRows result = sum_list (map numRows mixedTables)
      \<and> (\<forall>i<length mixedTables. distinctIds (mixedTables ! i) \<longrightarrow>
           (\<forall>column\<in>set (columns (mixedTables ! i)).
              \<exists>j. findMatchingColumn (columns result) column = Some j
                \<and> take (numRows (mixedTables ! i))
                     (drop (rowOffsetOf mixedTables i) (data (columns result ! j)))
                   = data column)))"
proof -
  have h1: "mixedTables \<noteq> []" by (simp add: mixedTables_def)
  have h2: "\<forall>t\<in>set mixedTables. table_inv t"
    by (simp add: mixedTables_def table_inv_def numRows_def)
  have h3: "\<forall>i<length mixedTables. distinctIds (mixedTables ! i)"
    by (simp add: mixedTables_def distinctIds_def colId_def less_Suc_eq)
  have h4: "sum_list (map numRows mixedTables) = 5"
    by (simp add: mixedTables_def numRows_def)
  have h5: "list_all table_inv mixedTables \<and> list_all distinctIds mixedTables"
    by (simp add: mixedTables_def table_inv_def numRows_def distinctIds_def colId_def)
  from combine_preserves_rows [OF h1 h2] h1 h4 h5 show ?thesis by blast
qed

text \<open>
  C3. For every sequence of two or more tables that satisfy the table invariant, and
  every name and element type that no column of the \<open>k\<close>-th table has, \<open>combine\<close>
  returns a table (it does not fail), and every output column of that name and element
  type is zero in the row range of the \<open>k\<close>-th table. Such an output column exists as
  soon as some input table has a column of that name and element type.
\<close>

theorem combine_zero_fill:
  assumes two: "2 \<le> length dataTables" and inv: "\<forall>t\<in>set dataTables. table_inv t"
    and k: "k < length dataTables"
    and absent: "\<forall>c\<in>set (columns (dataTables ! k)). \<not> (name c = n \<and> dataType c = ty)"
  shows "\<exists>result. combine dataTables = Inr result
      \<and> (\<forall>c\<in>set (columns result). name c = n \<and> dataType c = ty \<longrightarrow>
            length (data c) = sum_list (map numRows dataTables)
            \<and> (\<forall>row. rowOffsetOf dataTables k \<le> row
                      \<and> row < rowOffsetOf dataTables k + numRows (dataTables ! k) \<longrightarrow>
                 data c ! row = 0))
      \<and> ((\<exists>t\<in>set dataTables. \<exists>c\<in>set (columns t). name c = n \<and> dataType c = ty) \<longrightarrow>
           (\<exists>c\<in>set (columns result). name c = n \<and> dataType c = ty))"
proof -
  from two obtain t0 t1 rest where dt: "dataTables = t0 # t1 # rest"
    by (cases dataTables; cases "tl dataTables") auto
  let ?ts = "t0 # t1 # rest"
  have inv': "\<forall>t\<in>set ?ts. table_inv t" using inv dt by simp
  have k': "k < length ?ts" using k dt by simp
  from combine_general [OF inv']
  obtain rc' where run: "combine ?ts = Inr \<lparr>columns = rc'\<rparr>"
    and idset: "colId ` set rc' = (\<Union>t\<in>set ?ts. colId ` set (columns t))"
    and lens: "\<forall>c\<in>set rc'. length (data c) = sum_list (map numRows ?ts)"
    and gap: "\<forall>k<length ?ts. \<forall>c\<in>set rc'.
          colId c \<notin> colId ` set (columns (?ts ! k)) \<longrightarrow>
          (\<forall>r. rowOffsetOf ?ts k \<le> r \<and> r < rowOffsetOf ?ts k + numRows (?ts ! k) \<longrightarrow>
             data c ! r = 0)"
    by blast
  have z: "length (data c) = sum_list (map numRows ?ts)
            \<and> (\<forall>row. rowOffsetOf ?ts k \<le> row \<and> row < rowOffsetOf ?ts k + numRows (?ts ! k) \<longrightarrow>
                 data c ! row = 0)"
    if c: "c \<in> set rc'" and id: "name c = n \<and> dataType c = ty" for c
  proof -
    have "colId c \<notin> colId ` set (columns (?ts ! k))"
      using absent id dt by (auto simp: colId_def)
    then show ?thesis using gap k' c lens by blast
  qed
  have e: "\<exists>c\<in>set rc'. name c = n \<and> dataType c = ty"
    if "\<exists>t\<in>set ?ts. \<exists>c\<in>set (columns t). name c = n \<and> dataType c = ty"
  proof -
    from that obtain t c where "t \<in> set ?ts" "c \<in> set (columns t)" "name c = n \<and> dataType c = ty"
      by blast
    then have "(n, ty) \<in> (\<Union>t\<in>set ?ts. colId ` set (columns t))"
      by (auto simp: colId_def image_iff)
    then have "(n, ty) \<in> colId ` set rc'" using idset by simp
    then show ?thesis by (auto simp: colId_def)
  qed
  show ?thesis using run z e dt by auto
qed

text \<open>
  The theorem at \<open>mixedTables\<close>: the first table has no opacity column, the second has.
\<close>

theorem combine_zero_fill_witness:
  "2 \<le> length mixedTables \<and> list_all table_inv mixedTables \<and> 0 < length mixedTables
   \<and> list_all (\<lambda>c. \<not> (name c = ''opacity'' \<and> dataType c = Float32))
        (columns (mixedTables ! 0))
   \<and> (\<exists>t\<in>set mixedTables. \<exists>c\<in>set (columns t). name c = ''opacity'' \<and> dataType c = Float32)
   \<and> (\<exists>result. combine mixedTables = Inr result
      \<and> (\<forall>c\<in>set (columns result). name c = ''opacity'' \<and> dataType c = Float32 \<longrightarrow>
            length (data c) = sum_list (map numRows mixedTables)
            \<and> (\<forall>row. rowOffsetOf mixedTables 0 \<le> row
                      \<and> row < rowOffsetOf mixedTables 0 + numRows (mixedTables ! 0) \<longrightarrow>
                 data c ! row = 0))
      \<and> (\<exists>c\<in>set (columns result). name c = ''opacity'' \<and> dataType c = Float32))"
proof -
  have h1: "2 \<le> length mixedTables" by (simp add: mixedTables_def)
  have h2: "\<forall>t\<in>set mixedTables. table_inv t"
    by (simp add: mixedTables_def table_inv_def numRows_def)
  have h3: "0 < length mixedTables" by (simp add: mixedTables_def)
  have h4: "\<forall>c\<in>set (columns (mixedTables ! 0)).
      \<not> (name c = ''opacity'' \<and> dataType c = Float32)"
    by (simp add: mixedTables_def)
  have h5: "\<exists>t\<in>set mixedTables. \<exists>c\<in>set (columns t). name c = ''opacity'' \<and> dataType c = Float32"
    by (simp add: mixedTables_def)
  have h6: "list_all table_inv mixedTables
      \<and> list_all (\<lambda>c. \<not> (name c = ''opacity'' \<and> dataType c = Float32))
           (columns (mixedTables ! 0))"
    by (simp add: mixedTables_def table_inv_def numRows_def)
  from combine_zero_fill [OF h1 h2 h3 h4] h1 h3 h5 h6 show ?thesis by blast
qed

section \<open>Properties of writeFile\<close>

lemma getOutputFormat_last:
  "getOutputFormat filename = Inr k \<Longrightarrow>
   last (toLowerCase filename) \<in> {CHR ''v'', CHR ''n'', CHR ''g'', CHR ''y'', CHR ''l''}"
  by (auto simp: getOutputFormat_def Let_def split: if_splits dest!: endsWith_last)

lemma endsWith_iff: "endsWith s suf \<longleftrightarrow> (\<exists>q. s = q @ suf)"
proof
  assume "endsWith s suf"
  then have "s = take (length s - length suf) s @ suf"
    by (metis append_take_drop_id endsWith_def)
  then show "\<exists>q. s = q @ suf" ..
next
  assume "\<exists>q. s = q @ suf"
  then show "endsWith s suf" using endsWith_append by blast
qed

lemma endsWith_prepend: "endsWith f suf \<Longrightarrow> endsWith (p @ f) suf"
  unfolding endsWith_iff by (metis append.assoc)

lemma join_endsWith: "endsWith f suf \<Longrightarrow> endsWith (join d f) suf"
  using endsWith_prepend [of f suf "''/''"] endsWith_prepend [of f suf "d @ ''/''"]
  by (simp add: join_def)

lemma tmpPathname_endsWith: "endsWith (tmpPathnameOf env filename) ''.tmp''"
proof -
  have "endsWith ((''.'' @ basename filename @ ''.'' @ decimal (pid env) @ ''.''
          @ decimal (now env) @ ''.'' @ randomHex env) @ ''.tmp'') ''.tmp''"
    by (rule endsWith_append)
  then show ?thesis
    unfolding tmpPathnameOf_def Let_def by (intro join_endsWith) simp
qed

lemma tmpPathname_ne:
  assumes "getOutputFormat filename = Inr k"
  shows "tmpPathnameOf env filename \<noteq> filename"
proof
  assume eq: "tmpPathnameOf env filename = filename"
  have e: "endsWith filename ''.tmp''" using tmpPathname_endsWith [of env filename] eq by simp
  then have ne: "filename \<noteq> []" by (auto simp: endsWith_def)
  have "last filename = CHR ''p''" using endsWith_last [OF e] by simp
  then have "last (toLowerCase filename) = CHR ''p''"
    using ne by (simp add: toLowerCase_def last_map lowerChar_def)
  with getOutputFormat_last [OF assms] show False by simp
qed


lemmas fs_defs = fsOpen_def fsWrite_def fsSync_def fsClose_def fsRename_def

lemma writeFile_unsupported:
  "getOutputFormat filename = Inl e \<Longrightarrow> writeFile env wr filename table options w = (Inl e, w)"
  by (simp add: writeFile_def)

lemma writeFile_target:
  assumes k: "getOutputFormat filename = Inr k"
  shows "files (snd (writeFile env wr filename table options w)) filename =
     (if openFault env (tmpPathnameOf env filename) = None
         \<and> files w (tmpPathnameOf env filename) = None
         \<and> snd (dispatchWriter wr k filename table options) = None
         \<and> syncFault env (tmpPathnameOf env filename) = None
         \<and> renameFault env (tmpPathnameOf env filename) filename = None
      then Some (fst (dispatchWriter wr k filename table options))
      else files w filename)"
  using tmpPathname_ne [OF k, of env]
  by (auto simp: writeFile_def k Let_def fs_defs split: option.splits prod.splits sum.splits)

lemma writeFile_result:
  assumes k: "getOutputFormat filename = Inr k"
  shows "fst (writeFile env wr filename table options w) = Inr () \<longleftrightarrow>
     openFault env (tmpPathnameOf env filename) = None
         \<and> files w (tmpPathnameOf env filename) = None
         \<and> snd (dispatchWriter wr k filename table options) = None
         \<and> syncFault env (tmpPathnameOf env filename) = None
         \<and> renameFault env (tmpPathnameOf env filename) filename = None"
  using tmpPathname_ne [OF k, of env]
  by (auto simp: writeFile_def k Let_def fs_defs split: option.splits prod.splits sum.splits)


lemmas ex_defs = exEnv_def syncFailEnv_def exWorld_def exWriters_def failingWriters_def
  exReaders_def failingReaders_def exProcess_def

lemmas path_defs = tmpPathnameOf_def basename_def dirname_def join_def resolve_def decimal.simps

lemmas string_defs = getOutputFormat_def endsWith_def toLowerCase_def lowerChar_def

lemma ex_fmt: "getOutputFormat ''/work/out.ply'' = Inr Ply"
  by (simp add: string_defs)

lemma ex_write_ok:
  "fst (writeFile exEnv exWriters ''/work/out.ply'' gsExample convertOptions exWorld) = Inr ()"
  by (simp add: writeFile_result [OF ex_fmt] path_defs ex_defs dispatchWriter_def)

lemma ex_write_fail:
  "fst (writeFile exEnv failingWriters ''/work/out.ply'' gsExample convertOptions exWorld)
     = Inl (CodecError ''write failed'')"
  by (simp add: writeFile_def ex_fmt path_defs Let_def fs_defs dispatchWriter_def ex_defs)

lemma ex_sync_fail:
  "fst (writeFile syncFailEnv exWriters ''/work/out.ply'' gsExample convertOptions exWorld)
     = Inl (IOError ''EIO'')"
  by (simp add: writeFile_def string_defs path_defs Let_def fs_defs dispatchWriter_def ex_defs)


lemma html_resolves:
  "endsWith (toLowerCase filename) ''.html'' \<Longrightarrow> getOutputFormat filename = Inr Html"
  by (auto simp: getOutputFormat_def Let_def dest!: endsWith_last)

text \<open>
  C1. When the output kind does not resolve, \<open>writeFile\<close> fails with that error and
  leaves the whole state as it was. Whenever \<open>writeFile\<close> fails, for whatever reason
  (format, open, writer, sync or rename), the target path holds what it held before the
  call, content or absence. A writer that throws or a rejected \<open>sync\<close> makes
  \<open>writeFile\<close> fail. The target changes only in a run where the writer did not throw
  and the \<open>sync\<close> succeeded, that is, the rename comes after both.
\<close>

theorem writeFile_failure_leaves_target:
  "(getOutputFormat filename = Inl e \<longrightarrow>
      writeFile env wr filename table options w = (Inl e, w))
   \<and> (fst (writeFile env wr filename table options w) = Inl e \<longrightarrow>
        files (snd (writeFile env wr filename table options w)) filename = files w filename)
   \<and> (getOutputFormat filename = Inr k
        \<and> (snd (dispatchWriter wr k filename table options) \<noteq> None
           \<or> syncFault env (tmpPathnameOf env filename) \<noteq> None) \<longrightarrow>
        (\<exists>e'. fst (writeFile env wr filename table options w) = Inl e'))
   \<and> (files (snd (writeFile env wr filename table options w)) filename \<noteq> files w filename \<longrightarrow>
        fst (writeFile env wr filename table options w) = Inr ()
        \<and> (\<exists>k'. getOutputFormat filename = Inr k'
              \<and> snd (dispatchWriter wr k' filename table options) = None)
        \<and> syncFault env (tmpPathnameOf env filename) = None)"
proof (cases "getOutputFormat filename")
  case (Inl a)
  then show ?thesis by (simp add: writeFile_unsupported)
next
  case (Inr f)
  have t: "files (snd (writeFile env wr filename table options w)) filename \<noteq> files w filename \<longrightarrow>
      fst (writeFile env wr filename table options w) = Inr ()"
    by (simp add: writeFile_target [OF Inr] writeFile_result [OF Inr])
  have r: "fst (writeFile env wr filename table options w) = Inr () \<longrightarrow>
      snd (dispatchWriter wr f filename table options) = None
      \<and> syncFault env (tmpPathnameOf env filename) = None"
    by (simp add: writeFile_result [OF Inr])
  have n: "fst (writeFile env wr filename table options w) \<noteq> Inr () \<longrightarrow>
      (\<exists>e'. fst (writeFile env wr filename table options w) = Inl e')"
    by (cases "fst (writeFile env wr filename table options w)") auto
  show ?thesis using Inr t r n by auto
qed

lemma dispatchWriter_overwrite:
  "dispatchWriter wr k filename table (options\<lparr>overwrite := b\<rparr>)
     = dispatchWriter wr k filename table options"
  by (cases k) (simp_all add: dispatchWriter_def)

text \<open>
  C9. Two option records that differ in the \<open>overwrite\<close> flag only give the same
  result and the same final state. A successful \<open>writeFile\<close> leaves at the target what
  the writer wrote, whatever the target held before.
\<close>

theorem writeFile_ignores_overwrite:
  "writeFile env wr filename table (options\<lparr>overwrite := b\<rparr>) w
     = writeFile env wr filename table options w
   \<and> (fst (writeFile env wr filename table options w) = Inr () \<longrightarrow>
        (\<exists>k. getOutputFormat filename = Inr k
           \<and> files (snd (writeFile env wr filename table options w)) filename
               = Some (fst (dispatchWriter wr k filename table options))))"
proof
  show "writeFile env wr filename table (options\<lparr>overwrite := b\<rparr>) w
     = writeFile env wr filename table options w"
    unfolding writeFile_def dispatchWriter_overwrite by (rule refl)
  show "fst (writeFile env wr filename table options w) = Inr () \<longrightarrow>
        (\<exists>k. getOutputFormat filename = Inr k
           \<and> files (snd (writeFile env wr filename table options w)) filename
               = Some (fst (dispatchWriter wr k filename table options)))"
  proof (cases "getOutputFormat filename")
    case (Inl a)
    then show ?thesis by (simp add: writeFile_unsupported)
  next
    case (Inr k)
    show ?thesis
      using writeFile_result [OF Inr, of env wr table options w]
        writeFile_target [OF Inr, of env wr table options w]
      by (auto simp: Inr)
  qed
qed

text \<open>
  C10. A filename ending in .csv or .html (in any letter case) resolves to the csv or
  html kind, for which the format switch calls no writer: the outcome does not depend on
  the writers, the table or the options. The call succeeds exactly when the platform
  accepts the open of a temporary path that does not exist yet, the sync and the rename,
  and then the target holds an empty file, the temporary file is gone and its handle is
  closed.
\<close>

theorem writeFile_csv_html_no_codec:
  assumes "endsWith (toLowerCase filename) ''.csv'' \<or> endsWith (toLowerCase filename) ''.html''"
  shows "(getOutputFormat filename = Inr Csv \<or> getOutputFormat filename = Inr Html)
     \<and> writeFile env wr filename table options w = writeFile env wr' filename table' options' w
     \<and> (fst (writeFile env wr filename table options w) = Inr () \<longleftrightarrow>
          openFault env (tmpPathnameOf env filename) = None
          \<and> files w (tmpPathnameOf env filename) = None
          \<and> syncFault env (tmpPathnameOf env filename) = None
          \<and> renameFault env (tmpPathnameOf env filename) filename = None)
     \<and> (fst (writeFile env wr filename table options w) = Inr () \<longrightarrow>
          files (snd (writeFile env wr filename table options w)) filename = Some []
          \<and> files (snd (writeFile env wr filename table options w)) (tmpPathnameOf env filename) = None
          \<and> handles (snd (writeFile env wr filename table options w)) (nextFd w) = None)"
proof -
  have "endsWith (toLowerCase filename) ''.csv'' \<Longrightarrow> getOutputFormat filename = Inr Csv"
    by (simp add: getOutputFormat_def Let_def)
  with assms have f: "getOutputFormat filename = Inr Csv \<or> getOutputFormat filename = Inr Html"
    using html_resolves [of filename] by blast
  then obtain k where k: "getOutputFormat filename = Inr k" and kk: "k = Csv \<or> k = Html" by blast
  have d: "\<And>wr table options. dispatchWriter wr k filename table options = ([], None)"
    using kk by (auto simp: dispatchWriter_def)
  have same: "writeFile env wr filename table options w = writeFile env wr' filename table' options' w"
    unfolding writeFile_def k sum.case d by (rule refl)
  have res: "fst (writeFile env wr filename table options w) = Inr () \<longleftrightarrow>
          openFault env (tmpPathnameOf env filename) = None
          \<and> files w (tmpPathnameOf env filename) = None
          \<and> syncFault env (tmpPathnameOf env filename) = None
          \<and> renameFault env (tmpPathnameOf env filename) filename = None"
    by (simp add: writeFile_result [OF k] d)
  have tgt: "fst (writeFile env wr filename table options w) = Inr () \<longrightarrow>
          files (snd (writeFile env wr filename table options w)) filename = Some []"
    using writeFile_result [OF k, of env wr table options w]
      writeFile_target [OF k, of env wr table options w]
    by (auto simp: d)
  have rest: "fst (writeFile env wr filename table options w) = Inr () \<longrightarrow>
          files (snd (writeFile env wr filename table options w)) (tmpPathnameOf env filename) = None
          \<and> handles (snd (writeFile env wr filename table options w)) (nextFd w) = None"
    using tmpPathname_ne [OF k, of env]
    by (auto simp: writeFile_def k d Let_def fs_defs split: option.splits prod.splits sum.splits)
  show ?thesis using f same res tgt rest by blast
qed


section \<open>The writeFile theorems at concrete runs\<close>

text \<open>
  C1 at three runs on a file system where the target exists: an unknown suffix, a ply
  writer that throws after one byte, and a rejected sync.
\<close>

theorem writeFile_failure_leaves_target_witness:
  "getOutputFormat ''/work/out.txt'' = Inl (Error ''Unsupported output file type: /work/out.txt'')
   \<and> writeFile exEnv exWriters ''/work/out.txt'' gsExample convertOptions exWorld
        = (Inl (Error ''Unsupported output file type: /work/out.txt''), exWorld)
   \<and> files exWorld ''/work/out.ply'' = Some [9, 9]
   \<and> fst (writeFile exEnv failingWriters ''/work/out.ply'' gsExample convertOptions exWorld)
        = Inl (CodecError ''write failed'')
   \<and> files (snd (writeFile exEnv failingWriters ''/work/out.ply'' gsExample convertOptions exWorld))
        ''/work/out.ply'' = Some [9, 9]
   \<and> fst (writeFile syncFailEnv exWriters ''/work/out.ply'' gsExample convertOptions exWorld)
        = Inl (IOError ''EIO'')
   \<and> files (snd (writeFile syncFailEnv exWriters ''/work/out.ply'' gsExample convertOptions exWorld))
        ''/work/out.ply'' = Some [9, 9]"
proof -
  have h1: "getOutputFormat ''/work/out.txt''
      = Inl (Error ''Unsupported output file type: /work/out.txt'')"
    by (simp add: string_defs)
  have h2: "files exWorld ''/work/out.ply'' = Some [9, 9]" by (simp add: exWorld_def)
  note a = writeFile_failure_leaves_target
    [where filename = "''/work/out.txt''" and env = exEnv and wr = exWriters
       and table = gsExample and options = convertOptions and w = exWorld
       and e = "Error ''Unsupported output file type: /work/out.txt''"]
  note b = writeFile_failure_leaves_target
    [where filename = "''/work/out.ply''" and env = exEnv and wr = failingWriters
       and table = gsExample and options = convertOptions and w = exWorld
       and e = "CodecError ''write failed''"]
  note c = writeFile_failure_leaves_target
    [where filename = "''/work/out.ply''" and env = syncFailEnv and wr = exWriters
       and table = gsExample and options = convertOptions and w = exWorld
       and e = "IOError ''EIO''"]
  show ?thesis using a b c h1 h2 ex_write_fail ex_sync_fail by simp
qed

text \<open>C9 at a run over an existing target, with \<open>overwrite\<close> set to false and to true.\<close>

theorem writeFile_ignores_overwrite_witness:
  "files exWorld ''/work/out.ply'' = Some [9, 9]
   \<and> overwrite (convertOptions\<lparr>overwrite := False\<rparr>) \<noteq> overwrite convertOptions
   \<and> writeFile exEnv exWriters ''/work/out.ply'' gsExample (convertOptions\<lparr>overwrite := False\<rparr>)
        exWorld
      = writeFile exEnv exWriters ''/work/out.ply'' gsExample convertOptions exWorld
   \<and> fst (writeFile exEnv exWriters ''/work/out.ply'' gsExample convertOptions exWorld) = Inr ()
   \<and> files (snd (writeFile exEnv exWriters ''/work/out.ply'' gsExample convertOptions exWorld))
        ''/work/out.ply'' = Some [112, 108, 121]"
proof -
  have h1: "files exWorld ''/work/out.ply'' = Some [9, 9]" by (simp add: exWorld_def)
  have h2: "overwrite (convertOptions\<lparr>overwrite := False\<rparr>) \<noteq> overwrite convertOptions"
    by (simp add: convertOptions_def)
  have h3: "fst (dispatchWriter exWriters Ply ''/work/out.ply'' gsExample convertOptions)
      = [112, 108, 121]"
    by (simp add: dispatchWriter_def exWriters_def)
  note a = writeFile_ignores_overwrite
    [where filename = "''/work/out.ply''" and env = exEnv and wr = exWriters
       and table = gsExample and options = convertOptions and w = exWorld and b = False]
  show ?thesis using a h1 h2 h3 ex_write_ok ex_fmt by auto
qed

text \<open>C10 at a csv and at an upper-case html filename.\<close>

theorem writeFile_csv_html_no_codec_witness:
  "endsWith (toLowerCase ''/work/out.csv'') ''.csv''
   \<and> getOutputFormat ''/work/out.csv'' = Inr Csv
   \<and> fst (writeFile exEnv exWriters ''/work/out.csv'' gsExample convertOptions exWorld) = Inr ()
   \<and> files (snd (writeFile exEnv exWriters ''/work/out.csv'' gsExample convertOptions exWorld))
        ''/work/out.csv'' = Some []
   \<and> endsWith (toLowerCase ''/work/Page.HTML'') ''.html''
   \<and> getOutputFormat ''/work/Page.HTML'' = Inr Html
   \<and> fst (writeFile exEnv exWriters ''/work/Page.HTML'' gsExample convertOptions exWorld) = Inr ()
   \<and> files (snd (writeFile exEnv exWriters ''/work/Page.HTML'' gsExample convertOptions exWorld))
        ''/work/Page.HTML'' = Some []"
proof -
  have h1: "endsWith (toLowerCase ''/work/out.csv'') ''.csv''" by (simp add: string_defs)
  have h2: "endsWith (toLowerCase ''/work/Page.HTML'') ''.html''" by (simp add: string_defs)
  have t1: "tmpPathnameOf exEnv ''/work/out.csv'' = ''/work/.out.csv.7.42.00ff00ff00ff.tmp''"
    by (simp add: path_defs ex_defs)
  have t2: "tmpPathnameOf exEnv ''/work/Page.HTML'' = ''/work/.Page.HTML.7.42.00ff00ff00ff.tmp''"
    by (simp add: path_defs ex_defs)
  have p1: "openFault exEnv (tmpPathnameOf exEnv ''/work/out.csv'') = None
      \<and> files exWorld (tmpPathnameOf exEnv ''/work/out.csv'') = None
      \<and> syncFault exEnv (tmpPathnameOf exEnv ''/work/out.csv'') = None
      \<and> renameFault exEnv (tmpPathnameOf exEnv ''/work/out.csv'') ''/work/out.csv'' = None"
    unfolding t1 by (simp add: ex_defs)
  have p2: "openFault exEnv (tmpPathnameOf exEnv ''/work/Page.HTML'') = None
      \<and> files exWorld (tmpPathnameOf exEnv ''/work/Page.HTML'') = None
      \<and> syncFault exEnv (tmpPathnameOf exEnv ''/work/Page.HTML'') = None
      \<and> renameFault exEnv (tmpPathnameOf exEnv ''/work/Page.HTML'') ''/work/Page.HTML'' = None"
    unfolding t2 by (simp add: ex_defs)
  have g1: "getOutputFormat ''/work/out.csv'' = Inr Csv" by (simp add: string_defs)
  have g2: "getOutputFormat ''/work/Page.HTML'' = Inr Html" by (simp add: string_defs)
  note a = writeFile_csv_html_no_codec
    [where filename = "''/work/out.csv''" and env = exEnv and wr = exWriters
       and table = gsExample and options = convertOptions and w = exWorld, OF disjI1, OF h1]
  note b = writeFile_csv_html_no_codec
    [where filename = "''/work/Page.HTML''" and env = exEnv and wr = exWriters
       and table = gsExample and options = convertOptions and w = exWorld, OF disjI2, OF h2]
  have a': "fst (writeFile exEnv exWriters ''/work/out.csv'' gsExample convertOptions exWorld) = Inr ()"
    using a p1 by blast
  have b': "fst (writeFile exEnv exWriters ''/work/Page.HTML'' gsExample convertOptions exWorld) = Inr ()"
    using b p2 by blast
  show ?thesis using a b a' b' h1 h2 g1 g2 by blast
qed


section \<open>Properties of readFile\<close>

text \<open>
  After \<open>readFile\<close> on a non-mjs file that could be opened, the handle is still open
  exactly when the selected reader threw.
\<close>

lemma readFile_handle_after:
  assumes "\<not> endsWith (toLowerCase filename) ''.mjs''"
    and "fsOpen env filename FlagR w = (Inr fd, w1)"
  shows "handles (snd (readFile env rd filename params w)) fd =
     (case dispatchReader rd (toLowerCase filename) filename (fsRead fd w1) of
        Some (Inl e) \<Rightarrow> Some filename
      | _ \<Rightarrow> None)"
  using assms
  by (auto simp: readFile_def Let_def fsOpen_def fsClose_def
      split: option.splits sum.splits prod.splits if_splits)

text \<open>
  C7 at a ply file whose reader throws: \<open>readFile\<close> fails with the reader's error and
  the handle it opened is still open afterwards.
\<close>

theorem readFile_reader_error_leaves_handle_open:
  "handles exWorld (nextFd exWorld) = None
   \<and> fst (readFile exEnv failingReaders ''/work/in.ply'' [] exWorld)
        = Inl (CodecError ''malformed header'')
   \<and> handles (snd (readFile exEnv failingReaders ''/work/in.ply'' [] exWorld)) (nextFd exWorld)
        = Some ''/work/in.ply''"
  by (simp add: readFile_def dispatchReader_def Let_def fsOpen_def fsRead_def fsClose_def
      string_defs ex_defs)

section \<open>Properties of convertGsplat\<close>

text \<open>
  C4. \<open>convertGsplat\<close> always returns a result object and no exception leaves it: the
  result is the failure object carrying the exception when the block threw, and the
  success object otherwise. A failure of \<open>readFile\<close> arrives as the failure object with
  that error, and the success object is only returned after \<open>readFile\<close> returned a file
  and \<open>writeFile\<close> succeeded.
\<close>

theorem convertGsplat_never_throws:
  "(\<exists>r. fst (convertGsplat env rd processDataTable wr filename outputFilename w) = Inr r)
   \<and> fst (convertGsplat env rd processDataTable wr filename outputFilename w)
       = (case fst (convertBody env rd processDataTable wr filename outputFilename w) of
            Inl err \<Rightarrow> Inr (NotOk err)
          | Inr _ \<Rightarrow> Inr IsOk)
   \<and> (fst (readFile env rd (resolve env filename) [] w) = Inl e \<longrightarrow>
        fst (convertGsplat env rd processDataTable wr filename outputFilename w) = Inr (NotOk e))
   \<and> (fst (convertGsplat env rd processDataTable wr filename outputFilename w) = Inr IsOk \<longrightarrow>
        (\<exists>fileData t w1.
            readFile env rd (resolve env filename) [] w = (Inr fileData, w1)
            \<and> fst (writeFile env wr (resolve env outputFilename) t convertOptions w1) = Inr ()))"
proof (intro conjI)
  show c2: "fst (convertGsplat env rd processDataTable wr filename outputFilename w)
       = (case fst (convertBody env rd processDataTable wr filename outputFilename w) of
            Inl err \<Rightarrow> Inr (NotOk err)
          | Inr _ \<Rightarrow> Inr IsOk)"
    by (simp add: convertGsplat_def split: prod.splits sum.splits)
  then show "\<exists>r. fst (convertGsplat env rd processDataTable wr filename outputFilename w) = Inr r"
    by (simp split: sum.splits)
  show "fst (readFile env rd (resolve env filename) [] w) = Inl e \<longrightarrow>
        fst (convertGsplat env rd processDataTable wr filename outputFilename w) = Inr (NotOk e)"
    by (auto simp: convertGsplat_def convertBody_def split: prod.splits sum.splits)
  show "fst (convertGsplat env rd processDataTable wr filename outputFilename w) = Inr IsOk \<longrightarrow>
        (\<exists>fileData t w1.
            readFile env rd (resolve env filename) [] w = (Inr fileData, w1)
            \<and> fst (writeFile env wr (resolve env outputFilename) t convertOptions w1) = Inr ())"
    by (auto simp: convertGsplat_def convertBody_def Let_def
        split: prod.splits sum.splits if_splits) (metis fst_conv)
qed

lemma ex_read_fail:
  "fst (readFile exEnv failingReaders (resolve exEnv ''in.ply'') [] exWorld)
     = Inl (CodecError ''malformed header'')"
  by (simp add: readFile_def dispatchReader_def Let_def fsOpen_def fsRead_def fsClose_def
      string_defs path_defs ex_defs)

lemma ex_convert_ok:
  "fst (convertGsplat exEnv exReaders exProcess exWriters ''in.ply'' ''out.ply'' exWorld) = Inr IsOk"
  by (simp add: convertGsplat_def convertBody_def readFile_def dispatchReader_def Let_def
      fs_defs fsRead_def string_defs path_defs ex_defs writeFile_def dispatchWriter_def
      combine_def numRows_def isGSDataTable_def hasColumn_def gsColumns_def gsExample_def
      convertOptions_def)

text \<open>
  C4 at two conversions of a ply file: one whose reader throws and one that runs to the
  end.
\<close>

theorem convertGsplat_never_throws_witness:
  "fst (readFile exEnv failingReaders (resolve exEnv ''in.ply'') [] exWorld)
     = Inl (CodecError ''malformed header'')
   \<and> fst (convertGsplat exEnv failingReaders exProcess exWriters ''in.ply'' ''out.ply'' exWorld)
        = Inr (NotOk (CodecError ''malformed header''))
   \<and> fst (convertGsplat exEnv exReaders exProcess exWriters ''in.ply'' ''out.ply'' exWorld)
        = Inr IsOk
   \<and> (\<exists>fileData t w1.
         readFile exEnv exReaders (resolve exEnv ''in.ply'') [] exWorld = (Inr fileData, w1)
         \<and> fst (writeFile exEnv exWriters (resolve exEnv ''out.ply'') t convertOptions w1)
             = Inr ())"
proof -
  note a = convertGsplat_never_throws
    [where env = exEnv and rd = failingReaders and processDataTable = exProcess
       and wr = exWriters and filename = "''in.ply''" and outputFilename = "''out.ply''"
       and w = exWorld and e = "CodecError ''malformed header''"]
  note b = convertGsplat_never_throws
    [where env = exEnv and rd = exReaders and processDataTable = exProcess
       and wr = exWriters and filename = "''in.ply''" and outputFilename = "''out.ply''"
       and w = exWorld]
  show ?thesis using a b ex_read_fail ex_convert_ok by blast
qed

end
